theory Spec2Isabelle
  imports Complex_Main "HOL-Library.AList"
begin

section \<open>JavaScript values used by the pipeline\<close>

text \<open>
  The pipeline of \<^verbatim>\<open>React_Listings_Enricher.jsx\<close> computes with JavaScript strings and
  Numbers. Strings are modelled as \<^typ>\<open>string\<close>, one \<^typ>\<open>char\<close> per code unit below 256.
  A Number is an IEEE 754 double: a finite double is modelled by the rational it denotes,
  next to the two infinities and not-a-number. The sign of zero is not represented
  (\<open>-0\<close> and \<open>+0\<close> are both \<open>Fin 0\<close>); it is observable only in the sign of an infinity
  obtained by dividing by zero.
\<close>

datatype jsnum = Fin rat | PosInf | NegInf | NaN

subsection \<open>Rounding to the nearest double\<close>

definition pow2 :: "int \<Rightarrow> rat" where
  "pow2 e = (if 0 \<le> e then 2 ^ nat e else 1 / 2 ^ nat (- e))"

definition pow10 :: "int \<Rightarrow> rat" where
  "pow10 e = (if 0 \<le> e then 10 ^ nat e else 1 / 10 ^ nat (- e))"

text \<open>The number of binary digits of a natural number.\<close>

fun bitlen :: "nat \<Rightarrow> nat" where
  "bitlen n = (if n = 0 then 0 else Suc (bitlen (n div 2)))"

declare bitlen.simps [simp del]

text \<open>The binary exponent \<open>\<lfloor>log\<^sub>2 q\<rfloor>\<close> of a positive rational.\<close>

definition ilog2 :: "rat \<Rightarrow> int" where
  "ilog2 q = (if 1 \<le> q then int (bitlen (nat \<lfloor>q\<rfloor>)) - 1
     else (let k = int (bitlen (nat \<lfloor>1 / q\<rfloor>)) - 1
           in if q = pow2 (- k) then - k else - k - 1))"

definition round_half_even :: "rat \<Rightarrow> int" where
  "round_half_even q = (let f = \<lfloor>q\<rfloor>; d = q - of_int f
     in if d < 1 / 2 then f else if 1 / 2 < d then f + 1 else if even f then f else f + 1)"

text \<open>
  Round to nearest, ties to even, in binary64: 53 significant bits, exponents from
  \<open>-1022\<close> (below it the spacing stays \<open>2\<^sup>-\<^sup>1\<^sup>0\<^sup>7\<^sup>4\<close>: subnormal numbers) to \<open>1023\<close> (a result
  of magnitude \<open>2\<^sup>1\<^sup>0\<^sup>2\<^sup>4\<close> or more is an infinity).
\<close>

definition round_double :: "rat \<Rightarrow> jsnum" where
  "round_double q = (if q = 0 then Fin 0 else
     (let e = max (ilog2 \<bar>q\<bar>) (- 1022);
          ulp = pow2 (e - 52);
          r = of_int (round_half_even (\<bar>q\<bar> / ulp)) * ulp
      in if pow2 1024 \<le> r then (if 0 < q then PosInf else NegInf)
         else Fin (if 0 < q then r else - r)))"

subsection \<open>Operators on Numbers\<close>

text \<open>\<^verbatim>\<open>Number.isFinite(x)\<close>\<close>

fun Number_isFinite :: "jsnum \<Rightarrow> bool" where
  "Number_isFinite (Fin q) = True"
| "Number_isFinite x = False"

text \<open>\<^verbatim>\<open>a < b\<close> on Numbers: false as soon as one side is not-a-number.\<close>

fun js_less :: "jsnum \<Rightarrow> jsnum \<Rightarrow> bool" where
  "js_less NaN b = False"
| "js_less a NaN = False"
| "js_less (Fin a) (Fin b) = (a < b)"
| "js_less (Fin a) PosInf = True"
| "js_less NegInf (Fin b) = True"
| "js_less NegInf PosInf = True"
| "js_less a b = False"

text \<open>\<^verbatim>\<open>a <= b\<close> on Numbers.\<close>

fun js_le :: "jsnum \<Rightarrow> jsnum \<Rightarrow> bool" where
  "js_le NaN b = False"
| "js_le a NaN = False"
| "js_le (Fin a) (Fin b) = (a \<le> b)"
| "js_le PosInf (Fin b) = False"
| "js_le PosInf NegInf = False"
| "js_le (Fin a) NegInf = False"
| "js_le a b = True"

text \<open>\<^verbatim>\<open>a - b\<close> on Numbers.\<close>

fun js_minus :: "jsnum \<Rightarrow> jsnum \<Rightarrow> jsnum" where
  "js_minus NaN b = NaN"
| "js_minus a NaN = NaN"
| "js_minus (Fin a) (Fin b) = round_double (a - b)"
| "js_minus PosInf PosInf = NaN"
| "js_minus NegInf NegInf = NaN"
| "js_minus PosInf b = PosInf"
| "js_minus NegInf b = NegInf"
| "js_minus (Fin a) PosInf = NegInf"
| "js_minus (Fin a) NegInf = PosInf"

text \<open>
  \<^verbatim>\<open>a / b\<close> on Numbers. Division never raises: a nonzero number divided by zero is an
  infinity, zero divided by zero is not-a-number.
\<close>

fun js_divide :: "jsnum \<Rightarrow> jsnum \<Rightarrow> jsnum" where
  "js_divide NaN b = NaN"
| "js_divide a NaN = NaN"
| "js_divide (Fin a) (Fin b) =
     (if b = 0 then (if a = 0 then NaN else if 0 < a then PosInf else NegInf)
      else round_double (a / b))"
| "js_divide (Fin a) b = Fin 0"
| "js_divide PosInf (Fin b) = (if 0 \<le> b then PosInf else NegInf)"
| "js_divide NegInf (Fin b) = (if 0 \<le> b then NegInf else PosInf)"
| "js_divide a b = NaN"

text \<open>
  \<^verbatim>\<open>Math.round(x)\<close>: the integer closest to \<open>x\<close>, the larger one when two are equally
  close; infinities and not-a-number are returned as they are.
\<close>

fun Math_round :: "jsnum \<Rightarrow> jsnum" where
  "Math_round (Fin q) = Fin (of_int \<lfloor>q + 1 / 2\<rfloor>)"
| "Math_round x = x"

subsection \<open>Strings\<close>

definition isDigit :: "char \<Rightarrow> bool" where
  "isDigit c = (c \<in> set ''0123456789'')"

definition digitVal :: "char \<Rightarrow> nat" where
  "digitVal c = (of_char c :: nat) - 48"

text \<open>
  \<^verbatim>\<open>String.prototype.toLowerCase\<close> on code units below 256: the letters \<open>A\<close> to \<open>Z\<close> and the
  accented capitals \<open>0xC0\<close> to \<open>0xDE\<close> (without the multiplication sign \<open>0xD7\<close>) move up by 32.
\<close>

definition toLowerCase_char :: "char \<Rightarrow> char" where
  "toLowerCase_char c = (let n = (of_char c :: nat)
     in if (65 \<le> n \<and> n \<le> 90) \<or> (192 \<le> n \<and> n \<le> 222 \<and> n \<noteq> 215) then char_of (n + 32) else c)"

definition toLowerCase :: "string \<Rightarrow> string" where
  "toLowerCase s = map toLowerCase_char s"

text \<open>
  White space and line terminators that \<^verbatim>\<open>Number\<close> strips from both ends of a string:
  tab, line feed, vertical tab, form feed, carriage return, space, no-break space.
\<close>

definition isWhiteSpace :: "char \<Rightarrow> bool" where
  "isWhiteSpace c = ((of_char c :: nat) \<in> {9, 10, 11, 12, 13, 32, 160})"

definition trimWhiteSpace :: "string \<Rightarrow> string" where
  "trimWhiteSpace s = rev (dropWhile isWhiteSpace (rev (dropWhile isWhiteSpace s)))"

subsection \<open>\<^verbatim>\<open>Number(v)\<close> on a string\<close>

definition digitsVal :: "string \<Rightarrow> nat" where
  "digitsVal s = foldl (\<lambda>n c. 10 * n + digitVal c) 0 s"

definition unsignedInt :: "string \<Rightarrow> nat option" where
  "unsignedInt s = (if s \<noteq> [] \<and> list_all isDigit s then Some (digitsVal s) else None)"

text \<open>The exponent part of a decimal literal: nothing, or \<open>e\<close>/\<open>E\<close>, an optional sign and digits.\<close>

definition parseExponent :: "string \<Rightarrow> int option" where
  "parseExponent s = (case s of
       [] \<Rightarrow> Some 0
     | c # t \<Rightarrow>
         if c = CHR ''e'' \<or> c = CHR ''E'' then
           (case t of
              [] \<Rightarrow> None
            | d # u \<Rightarrow>
                if d = CHR ''+'' then map_option int (unsignedInt u)
                else if d = CHR ''-'' then map_option (\<lambda>n. - int n) (unsignedInt u)
                else map_option int (unsignedInt t))
         else None)"

text \<open>
  An unsigned decimal literal: digits, an optional fraction, an optional exponent, with at
  least one digit before or after the point. The result is its exact value.
\<close>

definition parseUnsignedDecimal :: "string \<Rightarrow> rat option" where
  "parseUnsignedDecimal s =
     (let ip = takeWhile isDigit s;
          r1 = dropWhile isDigit s;
          fp = (case r1 of [] \<Rightarrow> [] | c # t \<Rightarrow> if c = CHR ''.'' then takeWhile isDigit t else []);
          r2 = (case r1 of [] \<Rightarrow> [] | c # t \<Rightarrow> if c = CHR ''.'' then dropWhile isDigit t else r1)
      in if ip = [] \<and> fp = [] then None
         else (case parseExponent r2 of
                 None \<Rightarrow> None
               | Some e \<Rightarrow> Some (of_nat (digitsVal (ip @ fp)) * pow10 (e - int (length fp)))))"

definition radixDigit :: "char \<Rightarrow> nat option" where
  "radixDigit c = (let n = (of_char c :: nat)
     in if 48 \<le> n \<and> n \<le> 57 then Some (n - 48)
        else if 97 \<le> n \<and> n \<le> 102 then Some (n - 87)
        else if 65 \<le> n \<and> n \<le> 70 then Some (n - 55)
        else None)"

definition parseRadix :: "nat \<Rightarrow> string \<Rightarrow> nat option" where
  "parseRadix b s =
     (if s \<noteq> [] \<and> list_all (\<lambda>c. case radixDigit c of None \<Rightarrow> False | Some d \<Rightarrow> d < b) s
      then Some (foldl (\<lambda>n c. b * n + (case radixDigit c of None \<Rightarrow> 0 | Some d \<Rightarrow> d)) 0 s) else None)"

text \<open>A binary, octal or hexadecimal integer literal (\<open>0b\<close>, \<open>0o\<close>, \<open>0x\<close>); it takes no sign.\<close>

definition parseNonDecimal :: "string \<Rightarrow> nat option" where
  "parseNonDecimal s = (case s of
       z # x # t \<Rightarrow>
         if z \<noteq> CHR ''0'' then None
         else if x = CHR ''x'' \<or> x = CHR ''X'' then parseRadix 16 t
         else if x = CHR ''o'' \<or> x = CHR ''O'' then parseRadix 8 t
         else if x = CHR ''b'' \<or> x = CHR ''B'' then parseRadix 2 t
         else None
     | _ \<Rightarrow> None)"

text \<open>
  \<^verbatim>\<open>Number(s)\<close> for a string \<open>s\<close>: the empty or blank string is \<open>0\<close>, a numeric literal is
  its value rounded to a double, anything else is not-a-number.
\<close>

definition StringToNumber :: "string \<Rightarrow> jsnum" where
  "StringToNumber str =
     (let s = trimWhiteSpace str in
      if s = [] then Fin 0
      else (case parseNonDecimal s of
              Some n \<Rightarrow> round_double (of_nat n)
            | None \<Rightarrow>
                (let neg = (case s of [] \<Rightarrow> False | c # t \<Rightarrow> c = CHR ''-'');
                     u = (case s of [] \<Rightarrow> [] | c # t \<Rightarrow> if c = CHR ''-'' \<or> c = CHR ''+'' then t else s)
                 in if u = ''Infinity'' then (if neg then NegInf else PosInf)
                    else (case parseUnsignedDecimal u of
                            None \<Rightarrow> NaN
                          | Some q \<Rightarrow> round_double (if neg then - q else q)))))"

text \<open>A value of the schema type \<^verbatim>\<open>z.union([z.string(), z.number()])\<close>.\<close>

datatype strnum = Str string | Num jsnum

fun Number_of :: "strnum \<Rightarrow> jsnum" where
  "Number_of (Str s) = StringToNumber s"
| "Number_of (Num n) = n"


section \<open>Utilities of the pipeline\<close>

text \<open>
  \<^verbatim>\<open>const normalizeApn = (apn) => (apn || "").toString().replace(/\D+/g, "")\<close>:
  every run of non-digits is deleted, so exactly the decimal digits remain, in order.
\<close>

definition normalizeApn :: "string \<Rightarrow> string" where
  "normalizeApn apn = filter isDigit apn"

text \<open>
  \<^verbatim>\<open>const num = (v) => { const x = Number(v); return Number.isFinite(x) ? x : NaN; }\<close>
\<close>

definition num :: "strnum \<Rightarrow> jsnum" where
  "num v = (let x = Number_of v in if Number_isFinite x then x else NaN)"

text \<open>
  The truth value of an optional string-or-number field, as in \<^verbatim>\<open>r.beds ? ... : null\<close>:
  \<^verbatim>\<open>undefined\<close>, \<^verbatim>\<open>null\<close>, the empty string, zero and not-a-number are false.
\<close>

fun truthy :: "strnum option \<Rightarrow> bool" where
  "truthy None = False"
| "truthy (Some (Str s)) = (s \<noteq> [])"
| "truthy (Some (Num n)) = (n \<noteq> Fin 0 \<and> n \<noteq> NaN)"

text \<open>\<^verbatim>\<open>const allowedStatuses = new Set(["for_sale", "pending", "sold"])\<close>\<close>

definition allowedStatuses :: "string set" where
  "allowedStatuses = {''for_sale'', ''pending'', ''sold''}"

subsection \<open>The \<^verbatim>\<open>Map\<close> of JavaScript\<close>

text \<open>
  A \<^verbatim>\<open>Map\<close> keeps its keys in insertion order, and \<^verbatim>\<open>set\<close> on a key that is present
  replaces the value where the key stands: an association list with \<^const>\<open>AList.update\<close>.
\<close>

type_synonym ('k, 'v) js_map = "('k \<times> 'v) list"

definition Map_get :: "('k, 'v) js_map \<Rightarrow> 'k \<Rightarrow> 'v option" where
  "Map_get m k = map_of m k"

definition Map_set :: "('k, 'v) js_map \<Rightarrow> 'k \<Rightarrow> 'v \<Rightarrow> ('k, 'v) js_map" where
  "Map_set m k v = AList.update k v m"

definition Map_values :: "('k, 'v) js_map \<Rightarrow> 'v list" where
  "Map_values m = map snd m"

section \<open>Schemas\<close>

text \<open>
  A row of \<^verbatim>\<open>Papa.parse(text, {header: true, dynamicTyping: false, ...}).data\<close>: an object
  from (trimmed, lower-cased) header names to strings. A row shorter than the header has
  no entry for the trailing columns.
\<close>

type_synonym RawRecord = "string \<rightharpoonup> string"

text \<open>
  \<^verbatim>\<open>ListingSchema\<close>: \<open>apn\<close>, \<open>address\<close>, \<open>zip\<close>, \<open>status\<close> are strings, \<open>price\<close> and \<open>sqft\<close>
  strings or numbers, \<open>city\<close> and \<open>state\<close> default to the empty string, \<open>beds\<close> and
  \<open>baths\<close> may be absent or null (both are \<open>None\<close>).
\<close>

record Listing =
  l_apn :: string
  l_address :: string
  l_city :: string
  l_state :: string
  l_zip :: string
  l_price :: strnum
  l_beds :: "strnum option"
  l_baths :: "strnum option"
  l_sqft :: strnum
  l_status :: string

text \<open>\<^verbatim>\<open>ClimateSchema\<close>: \<open>apn\<close> is a string, the two attributes may be absent or null.\<close>

record Climate =
  c_apn :: string
  c_flood_zone :: "string option"
  c_avg_rain_inches :: "strnum option"

text \<open>
  \<^verbatim>\<open>Schema.parse(r)\<close> throws a \<^verbatim>\<open>ZodError\<close> listing the issues of the row; on a parsed
  row, whose values are all strings, the only possible issue is a required key that is
  missing. The error carries the missing keys.
\<close>

datatype error = ZodError "string list"

definition missingKeys :: "string list \<Rightarrow> RawRecord \<Rightarrow> string list" where
  "missingKeys required r = filter (\<lambda>k. r k = None) required"

definition ListingSchema_parse :: "RawRecord \<Rightarrow> error + Listing" where
  "ListingSchema_parse r =
     (case (r ''apn'', r ''address'', r ''zip'', r ''price'', r ''sqft'', r ''status'') of
        (Some a, Some ad, Some z, Some p, Some sq, Some st) \<Rightarrow>
          Inr \<lparr> l_apn = a, l_address = ad,
                l_city = (case r ''city'' of None \<Rightarrow> [] | Some c \<Rightarrow> c),
                l_state = (case r ''state'' of None \<Rightarrow> [] | Some c \<Rightarrow> c),
                l_zip = z, l_price = Str p,
                l_beds = map_option Str (r ''beds''), l_baths = map_option Str (r ''baths''),
                l_sqft = Str sq, l_status = st \<rparr>
      | _ \<Rightarrow> Inl (ZodError (missingKeys [''apn'', ''address'', ''zip'', ''price'', ''sqft'', ''status''] r)))"

definition ClimateSchema_parse :: "RawRecord \<Rightarrow> error + Climate" where
  "ClimateSchema_parse r =
     (case r ''apn'' of
        Some a \<Rightarrow> Inr \<lparr> c_apn = a, c_flood_zone = r ''flood_zone'',
                        c_avg_rain_inches = map_option Str (r ''avg_rain_inches'') \<rparr>
      | None \<Rightarrow> Inl (ZodError (missingKeys [''apn''] r)))"

text \<open>
  \<^verbatim>\<open>data.map((r) => Schema.parse(r))\<close>: the rows are parsed in order and the first
  exception leaves the loop.
\<close>

fun map_parse :: "('a \<Rightarrow> error + 'b) \<Rightarrow> 'a list \<Rightarrow> error + 'b list" where
  "map_parse f [] = Inr []"
| "map_parse f (x # xs) =
     (case f x of
        Inl e \<Rightarrow> Inl e
      | Inr y \<Rightarrow> (case map_parse f xs of Inl e \<Rightarrow> Inl e | Inr ys \<Rightarrow> Inr (y # ys)))"

section \<open>The pipeline \<^verbatim>\<open>enrichListings\<close>\<close>

subsection \<open>Climate index\<close>

record ClimateEntry =
  e_flood_zone :: "string option"
  e_avg_rain_inches :: "jsnum option"

text \<open>
  The value stored for a climate row:
  \<^verbatim>\<open>{ flood_zone: c.flood_zone || null,
     avg_rain_inches: c.avg_rain_inches == null || c.avg_rain_inches === "" ? null
                      : num(c.avg_rain_inches) }\<close>
\<close>

definition climateEntry :: "Climate \<Rightarrow> ClimateEntry" where
  "climateEntry c =
     \<lparr> e_flood_zone = (case c_flood_zone c of None \<Rightarrow> None | Some z \<Rightarrow> if z = [] then None else Some z),
       e_avg_rain_inches =
         (case c_avg_rain_inches c of None \<Rightarrow> None | Some v \<Rightarrow> if v = Str [] then None else Some (num v)) \<rparr>"

text \<open>
  \<^verbatim>\<open>for (const c of climateRows) { const napn = normalizeApn(c.apn);
     if (!napn) continue; climateIndex.set(napn, {...}); }\<close>
\<close>

fun climateIndex_loop :: "Climate list \<Rightarrow> (string, ClimateEntry) js_map \<Rightarrow> (string, ClimateEntry) js_map" where
  "climateIndex_loop [] m = m"
| "climateIndex_loop (c # cs) m =
     (let napn = normalizeApn (c_apn c)
      in if napn = [] then climateIndex_loop cs m
         else climateIndex_loop cs (Map_set m napn (climateEntry c)))"

definition climateIndex :: "Climate list \<Rightarrow> (string, ClimateEntry) js_map" where
  "climateIndex climateRows = climateIndex_loop climateRows []"

subsection \<open>Cleaning and filtering the listings\<close>

text \<open>
  The row built for a listing:
  \<^verbatim>\<open>{ ...r, napn, price, sqft, beds: r.beds ? num(r.beds) : null,
     baths: r.baths ? num(r.baths) : null, status }\<close>
\<close>

record Row =
  r_apn :: string
  r_address :: string
  r_city :: string
  r_state :: string
  r_zip :: string
  r_napn :: string
  r_price :: jsnum
  r_sqft :: jsnum
  r_beds :: "jsnum option"
  r_baths :: "jsnum option"
  r_status :: string

definition cleanRow :: "Listing \<Rightarrow> Row" where
  "cleanRow r =
     \<lparr> r_apn = l_apn r, r_address = l_address r, r_city = l_city r, r_state = l_state r,
       r_zip = l_zip r, r_napn = normalizeApn (l_apn r),
       r_price = num (l_price r), r_sqft = num (l_sqft r),
       r_beds = (if truthy (l_beds r) then map_option num (l_beds r) else None),
       r_baths = (if truthy (l_baths r) then map_option num (l_baths r) else None),
       r_status = toLowerCase (l_status r) \<rparr>"

text \<open>
  \<^verbatim>\<open>if (!napn || !r.address || !r.zip || !Number.isFinite(price) || !Number.isFinite(sqft)) continue;
  if (!allowedStatuses.has(status)) continue;
  cleaned.push(row);\<close>
\<close>

fun cleaned :: "Listing list \<Rightarrow> Row list" where
  "cleaned [] = []"
| "cleaned (r # rs) =
     (let napn = normalizeApn (l_apn r);
          status = toLowerCase (l_status r);
          price = num (l_price r);
          sqft = num (l_sqft r);
          row = cleanRow r
      in if napn = [] \<or> l_address r = [] \<or> l_zip r = []
            \<or> \<not> Number_isFinite price \<or> \<not> Number_isFinite sqft then cleaned rs
         else if status \<notin> allowedStatuses then cleaned rs
         else row # cleaned rs)"

subsection \<open>Deduplication\<close>

text \<open>
  \<^verbatim>\<open>for (const r of cleaned) { const existing = bestByApn.get(r.napn);
     if (!existing || r.price < existing.price) bestByApn.set(r.napn, r); }\<close>
\<close>

fun bestByApn_loop :: "Row list \<Rightarrow> (string, Row) js_map \<Rightarrow> (string, Row) js_map" where
  "bestByApn_loop [] m = m"
| "bestByApn_loop (r # rs) m =
     (case Map_get m (r_napn r) of
        None \<Rightarrow> bestByApn_loop rs (Map_set m (r_napn r) r)
      | Some existing \<Rightarrow>
          if js_less (r_price r) (r_price existing) then bestByApn_loop rs (Map_set m (r_napn r) r)
          else bestByApn_loop rs m)"

definition bestByApn :: "Row list \<Rightarrow> (string, Row) js_map" where
  "bestByApn rows = bestByApn_loop rows []"

subsection \<open>Enrichment\<close>

record Enriched =
  apn :: string
  full_address :: string
  price :: jsnum
  beds :: "jsnum option"
  baths :: "jsnum option"
  sqft :: jsnum
  price_per_sqft :: jsnum
  status :: string
  flood_zone :: "string option"
  avg_rain_inches :: "jsnum option"

text \<open>
  The body of the loop over \<^verbatim>\<open>bestByApn.values()\<close>:
  \<^verbatim>\<open>const climate = climateIndex.get(r.napn) || { flood_zone: null, avg_rain_inches: null };\<close>
  and the object pushed to \<^verbatim>\<open>enriched\<close>.
\<close>

definition enrichRow :: "(string, ClimateEntry) js_map \<Rightarrow> Row \<Rightarrow> Enriched" where
  "enrichRow index r =
     (let climate = (case Map_get index (r_napn r) of
                       None \<Rightarrow> \<lparr> e_flood_zone = None, e_avg_rain_inches = None \<rparr>
                     | Some c \<Rightarrow> c)
      in \<lparr> apn = r_apn r,
           full_address = r_address r @ '', '' @ r_city r @ '', '' @ r_state r @ '' '' @ r_zip r,
           price = r_price r,
           beds = r_beds r,
           baths = r_baths r,
           sqft = r_sqft r,
           price_per_sqft = Math_round (js_divide (r_price r) (r_sqft r)),
           status = r_status r,
           flood_zone = e_flood_zone climate,
           avg_rain_inches = e_avg_rain_inches climate \<rparr>)"

definition enriched :: "(string, ClimateEntry) js_map \<Rightarrow> (string, Row) js_map \<Rightarrow> Enriched list" where
  "enriched index best = map (enrichRow index) (Map_values best)"

subsection \<open>Sorting\<close>

text \<open>
  \<^verbatim>\<open>enriched.sort((a, b) => a.price - b.price)\<close>. \<^verbatim>\<open>Array.prototype.sort\<close> is stable, and
  for a comparator that is a consistent ordering its result is determined: it is the one
  of insertion sort, where \<open>a\<close> goes behind \<open>b\<close> exactly when the comparator is positive
  (a not-a-number result counts as zero).
\<close>

definition compareFn :: "Enriched \<Rightarrow> Enriched \<Rightarrow> jsnum" where
  "compareFn a b = js_minus (price a) (price b)"

fun insert_sorted :: "('a \<Rightarrow> 'a \<Rightarrow> jsnum) \<Rightarrow> 'a \<Rightarrow> 'a list \<Rightarrow> 'a list" where
  "insert_sorted cmp x [] = [x]"
| "insert_sorted cmp x (y # ys) =
     (if js_less (Fin 0) (cmp x y) then y # insert_sorted cmp x ys else x # y # ys)"

definition Array_sort :: "('a \<Rightarrow> 'a \<Rightarrow> jsnum) \<Rightarrow> 'a list \<Rightarrow> 'a list" where
  "Array_sort cmp xs = foldr (insert_sorted cmp) xs []"

subsection \<open>The whole function\<close>

text \<open>
  \<^verbatim>\<open>enrichedRows\<close> is the array \<^verbatim>\<open>enriched\<close> as the loops over the validated rows leave
  it, before it is sorted. \<^verbatim>\<open>enrichParsed\<close> is \<^verbatim>\<open>enrichListings\<close> from its third line on,
  applied to the two arrays \<^verbatim>\<open>listingsParsed.data\<close> and \<^verbatim>\<open>climateParsed.data\<close>;
  \<^verbatim>\<open>enrichListings\<close> itself takes the tokenizer \<^verbatim>\<open>parseCSV\<close> (the library call
  \<^verbatim>\<open>Papa.parse\<close>, which reports malformed text in its result and does not throw) as a
  parameter.
\<close>

definition enrichedRows :: "Listing list \<Rightarrow> Climate list \<Rightarrow> Enriched list" where
  "enrichedRows listingRows climateRows =
     enriched (climateIndex climateRows) (bestByApn (cleaned listingRows))"

definition enrichParsed :: "RawRecord list \<Rightarrow> RawRecord list \<Rightarrow> error + Enriched list" where
  "enrichParsed listingsData climateData =
     (case map_parse ListingSchema_parse listingsData of
        Inl e \<Rightarrow> Inl e
      | Inr listingRows \<Rightarrow>
          (case map_parse ClimateSchema_parse climateData of
             Inl e \<Rightarrow> Inl e
           | Inr climateRows \<Rightarrow>
               Inr (Array_sort compareFn (enrichedRows listingRows climateRows))))"

definition enrichListings :: "(string \<Rightarrow> RawRecord list) \<Rightarrow> string \<Rightarrow> string \<Rightarrow> error + Enriched list" where
  "enrichListings parseCSV listingsRaw climateRaw =
     enrichParsed (parseCSV listingsRaw) (parseCSV climateRaw)"

subsection \<open>The component's \<^verbatim>\<open>process\<close> callback\<close>

text \<open>
  The state of the component that \<^verbatim>\<open>process\<close> reads and writes. \<^verbatim>\<open>errors\<close> holds
  \<^verbatim>\<open>String(err)\<close> in the source; the model keeps the error itself.
  \<^verbatim>\<open>try { const enriched = enrichListings(listingsRaw, climateRaw);
        setResults(enriched); setErrors([]); }
  catch (err) { setErrors([String(err)]); }\<close>
\<close>

record AppState =
  listingsRaw :: string
  climateRaw :: string
  results :: "Enriched list"
  errors :: "error list"

definition process :: "(string \<Rightarrow> RawRecord list) \<Rightarrow> AppState \<Rightarrow> AppState" where
  "process parseCSV st =
     (case enrichListings parseCSV (listingsRaw st) (climateRaw st) of
        Inr rows \<Rightarrow> st\<lparr> results := rows, errors := [] \<rparr>
      | Inl err \<Rightarrow> st\<lparr> errors := [err] \<rparr>)"

section \<open>Notions used in the statements and proofs\<close>

text \<open>
  A finite double is a multiple of the smallest positive double \<open>2\<^sup>-\<^sup>1\<^sup>0\<^sup>7\<^sup>4\<close>; the values
  that \<^const>\<open>round_double\<close> returns are of this form.
\<close>

definition on_grid :: "rat \<Rightarrow> bool" where
  "on_grid q = (\<exists>m::int. q = of_int m * pow2 (- 1074))"

definition fin_val :: "jsnum \<Rightarrow> rat" where
  "fin_val x = (case x of Fin q \<Rightarrow> q | _ \<Rightarrow> 0)"

definition double_price :: "Enriched \<Rightarrow> bool" where
  "double_price e \<longleftrightarrow> (\<exists>q. price e = Fin q \<and> on_grid q)"

text \<open>
  The deduplication rule in the words of the specification: \<open>d\<close> stands in the input
  sequence \<open>cs\<close> at a position \<open>i\<close> such that no candidate with the same normalized
  identifier has a lower price, and none of those with the same price stands before \<open>i\<close>.
\<close>

definition first_lowest_in_group :: "Row list \<Rightarrow> Row \<Rightarrow> bool" where
  "first_lowest_in_group cs d \<longleftrightarrow>
     (\<exists>i<length cs. cs ! i = d \<and>
        (\<forall>j<length cs. r_napn (cs ! j) = r_napn d \<longrightarrow>
           js_le (r_price d) (r_price (cs ! j)) \<and> (r_price (cs ! j) = r_price d \<longrightarrow> i \<le> j)))"

text \<open>The invariant of the deduplication loop after the candidates \<open>cs\<close>.\<close>

definition dedup_inv :: "Row list \<Rightarrow> (string, Row) js_map \<Rightarrow> bool" where
  "dedup_inv cs m \<longleftrightarrow>
     distinct (map fst m) \<and> fst ` set m = r_napn ` set cs \<and>
     (\<forall>p\<in>set m. r_napn (snd p) = fst p \<and> first_lowest_in_group cs (snd p))"

section \<open>Sample inputs\<close>

text \<open>
  The first data row of \<^verbatim>\<open>DEMO_LISTINGS_TSV\<close>, its last row (nine fields under a header
  of ten, so that no \<open>status\<close> is left), and the first data row of \<^verbatim>\<open>DEMO_CLIMATE_CSV\<close>.
\<close>

definition demo_listing :: RawRecord where
  "demo_listing = [''apn'' \<mapsto> ''12-34-567890'', ''address'' \<mapsto> ''12 Oak St'', ''city'' \<mapsto> ''Orlando'',
     ''state'' \<mapsto> ''FL'', ''zip'' \<mapsto> ''32801'', ''price'' \<mapsto> ''450000'', ''beds'' \<mapsto> ''3'',
     ''baths'' \<mapsto> ''2'', ''sqft'' \<mapsto> ''1600'', ''status'' \<mapsto> ''for_sale'']"

definition demo_short_row :: RawRecord where
  "demo_short_row = [''apn'' \<mapsto> ''123 Unknown Rd'', ''address'' \<mapsto> ''Orlando'', ''city'' \<mapsto> ''FL'',
     ''state'' \<mapsto> ''32801'', ''zip'' \<mapsto> ''300000'', ''price'' \<mapsto> ''2'', ''beds'' \<mapsto> ''1'',
     ''baths'' \<mapsto> ''900'', ''sqft'' \<mapsto> ''for_sale'']"

definition demo_climate :: RawRecord where
  "demo_climate = [''apn'' \<mapsto> ''1234567890'', ''flood_zone'' \<mapsto> ''AE'', ''avg_rain_inches'' \<mapsto> ''52.1'']"

text \<open>Validated rows that differ in identifier, price, area and status only.\<close>

definition sample_listing :: "string \<Rightarrow> string \<Rightarrow> string \<Rightarrow> string \<Rightarrow> Listing" where
  "sample_listing a p sq st =
     \<lparr> l_apn = a, l_address = ''12 Oak St'', l_city = ''Orlando'', l_state = ''FL'',
       l_zip = ''32801'', l_price = Str p, l_beds = Some (Str ''3''), l_baths = Some (Str ''2''),
       l_sqft = Str sq, l_status = st \<rparr>"

definition sample_climate :: "string \<Rightarrow> string \<Rightarrow> string \<Rightarrow> Climate" where
  "sample_climate a z rain =
     \<lparr> c_apn = a, c_flood_zone = Some z, c_avg_rain_inches = Some (Str rain) \<rparr>"

definition dedup_example :: "Row list" where
  "dedup_example = map cleanRow
     [sample_listing ''12-34-567890'' ''450000'' ''1600'' ''for_sale'',
      sample_listing ''12-34-567890'' ''440000'' ''1600'' ''for_sale'',
      sample_listing ''1234567890'' ''440000'' ''2200'' ''sold'',
      sample_listing ''55-66-777888'' ''800000'' ''2200'' ''Pending'']"

text \<open>A tokenizer that knows two texts, and a state that shows the rows of an earlier run.\<close>

definition sample_parseCSV :: "string \<Rightarrow> RawRecord list" where
  "sample_parseCSV text = (if text = ''listings'' then [demo_listing, demo_short_row] else [demo_climate])"

definition sample_state :: AppState where
  "sample_state =
     \<lparr> listingsRaw = ''listings'', climateRaw = ''climate'',
       results = [enrichRow [] (cleanRow (sample_listing ''12-34-567890'' ''450000'' ''1600'' ''for_sale''))],
       errors = [] \<rparr>"

section \<open>Lemmas\<close>

subsection \<open>Rounding to a double\<close>

lemma pow2_powi: "pow2 e = 2 powi e"
  by (simp add: pow2_def power_int_def inverse_eq_divide power_one_over)

lemma pow2_pos: "0 < pow2 e"
  by (simp add: pow2_powi)

lemma pow2_mono: "a \<le> b \<Longrightarrow> pow2 a \<le> pow2 b"
  by (simp add: pow2_powi power_int_increasing)

text \<open>
  \<^const>\<open>bitlen\<close> brackets its argument between two powers of two, hence \<^const>\<open>ilog2\<close> never
  overshoots: \<open>2\<close> to the power \<open>ilog2 q\<close> is at most \<open>q\<close>.
\<close>

lemma bitlen_pos: "0 < n \<Longrightarrow> 0 < bitlen n"
  by (subst bitlen.simps) simp

lemma bitlen_lower: "0 < n \<Longrightarrow> 2 ^ (bitlen n - 1) \<le> n"
proof (induction n rule: bitlen.induct)
  case (1 n)
  show ?case
  proof (cases "n div 2 = 0")
    case True
    with "1.prems" have "bitlen n = 1"
      by (simp add: bitlen.simps [of n] bitlen.simps [of 0])
    with "1.prems" show ?thesis by simp
  next
    case False
    then have pos: "0 < n div 2" by simp
    from "1.prems" have eq: "bitlen n = Suc (bitlen (n div 2))"
      by (simp add: bitlen.simps [of n])
    from "1.IH" "1.prems" pos have ih: "2 ^ (bitlen (n div 2) - 1) \<le> n div 2" by simp
    from bitlen_pos [OF pos] have "(2::nat) ^ bitlen (n div 2) = 2 * 2 ^ (bitlen (n div 2) - 1)"
      by (cases "bitlen (n div 2)") simp_all
    with ih have "(2::nat) ^ bitlen (n div 2) \<le> 2 * (n div 2)" by simp
    also have "\<dots> \<le> n" by simp
    finally show ?thesis by (simp add: eq)
  qed
qed

lemma bitlen_upper: "n < 2 ^ bitlen n"
proof (induction n rule: bitlen.induct)
  case (1 n)
  show ?case
  proof (cases "n = 0")
    case True
    then show ?thesis by simp
  next
    case False
    then have eq: "bitlen n = Suc (bitlen (n div 2))"
      by (simp add: bitlen.simps [of n])
    from "1.IH" False have "n div 2 < 2 ^ bitlen (n div 2)" by simp
    then have "n < 2 * 2 ^ bitlen (n div 2)" by linarith
    then show ?thesis by (simp add: eq)
  qed
qed

lemma ilog2_lower:
  assumes "0 < q"
  shows "pow2 (ilog2 q) \<le> q"
proof (cases "1 \<le> q")
  case True
  define n where "n = nat \<lfloor>q\<rfloor>"
  from True have n: "0 < n" by (simp add: n_def)
  from True have le: "of_nat n \<le> q" by (simp add: n_def)
  have "ilog2 q = int (bitlen n - 1)"
    using True bitlen_pos [OF n] by (simp add: ilog2_def n_def)
  then have "pow2 (ilog2 q) = 2 ^ (bitlen n - 1)"
    by (simp add: pow2_def)
  also have "\<dots> = of_nat (2 ^ (bitlen n - 1))" by simp
  also have "\<dots> \<le> of_nat n" using bitlen_lower [OF n] by (simp only: of_nat_le_iff)
  finally show ?thesis using le by simp
next
  case False
  define m where "m = nat \<lfloor>1 / q\<rfloor>"
  define k where "k = int (bitlen m) - 1"
  from False have il: "ilog2 q = (if q = pow2 (- k) then - k else - k - 1)"
    by (simp add: ilog2_def Let_def m_def k_def)
  show ?thesis
  proof (cases "q = pow2 (- k)")
    case True
    have "ilog2 q = - k" by (subst il) (simp only: if_P [OF True])
    then have "pow2 (ilog2 q) = q" by (simp only: True [symmetric])
    then show ?thesis by simp
  next
    case neq: False
    have "ilog2 q = - k - 1" by (subst il) (simp only: if_not_P [OF neq])
    then have il': "ilog2 q = - int (bitlen m)" by (simp add: k_def)
    have "\<lfloor>1 / q\<rfloor> < int (2 ^ bitlen m)"
      using bitlen_upper [of m] assms by (simp add: m_def)
    then have "1 / q < of_int (int (2 ^ bitlen m))"
      by (simp only: floor_less_iff)
    then have "1 / q < 2 ^ bitlen m" by simp
    with assms have "1 < 2 ^ bitlen m * q"
      by (simp add: field_simps)
    then have "1 / 2 ^ bitlen m \<le> q"
      by (simp add: field_simps)
    then show ?thesis by (simp add: il' pow2_powi power_int_minus_divide)
  qed
qed

lemma round_half_even_ge: "\<lfloor>q\<rfloor> \<le> round_half_even q"
  by (simp add: round_half_even_def Let_def)

text \<open>
  The doubles lie on the grid of the multiples of \<open>2\<^sup>-\<^sup>1\<^sup>0\<^sup>7\<^sup>4\<close>. A positive number of the grid
  is at least one unit in the last place of its rounding, so it is rounded to a positive
  double or to infinity, never to zero: the difference of two doubles keeps its sign when
  it is rounded, which is what the comparator of the sort needs.
\<close>

lemma on_grid_0: "on_grid 0"
  unfolding on_grid_def by (rule exI [of _ 0]) simp

lemma on_grid_diff: "on_grid a \<Longrightarrow> on_grid b \<Longrightarrow> on_grid (a - b)"
  unfolding on_grid_def
proof (elim exE)
  fix m n :: int
  assume "a = of_int m * pow2 (- 1074)" "b = of_int n * pow2 (- 1074)"
  then have "a - b = of_int (m - n) * pow2 (- 1074)" by (simp add: algebra_simps)
  then show "\<exists>k::int. a - b = of_int k * pow2 (- 1074)" by blast
qed

lemma on_grid_ge:
  assumes "on_grid q" "0 < q"
  shows "pow2 (- 1074) \<le> q"
proof -
  from assms(1) obtain m :: int where q: "q = of_int m * pow2 (- 1074)"
    unfolding on_grid_def by blast
  with assms(2) pow2_pos [of "- 1074"] have "0 < (of_int m :: rat)"
    by (simp add: zero_less_mult_iff)
  then have "1 \<le> m" by simp
  then have "(1::rat) \<le> of_int m" by (metis of_int_1 of_int_le_iff)
  then have "1 * pow2 (- 1074) \<le> of_int m * pow2 (- 1074)"
    using pow2_pos [of "- 1074"] by (intro mult_right_mono) simp_all
  with q show ?thesis by simp
qed

lemma ulp_le:
  assumes "0 < q" "on_grid q"
  shows "pow2 (max (ilog2 q) (- 1022) - 52) \<le> q"
proof (cases "- 1022 \<le> ilog2 q")
  case True
  then have "pow2 (max (ilog2 q) (- 1022) - 52) = pow2 (ilog2 q - 52)" by (simp add: max_def)
  also have "\<dots> \<le> pow2 (ilog2 q)" by (rule pow2_mono) simp
  also have "\<dots> \<le> q" by (rule ilog2_lower [OF assms(1)])
  finally show ?thesis .
next
  case False
  then have "pow2 (max (ilog2 q) (- 1022) - 52) = pow2 (- 1074)" by (simp add: max_def)
  with on_grid_ge [OF assms(2,1)] show ?thesis by simp
qed

lemma round_double_pos:
  assumes "0 < q" "on_grid q"
  shows "js_less (Fin 0) (round_double q)"
proof -
  define ulp where "ulp = pow2 (max (ilog2 q) (- 1022) - 52)"
  define r where "r = of_int (round_half_even (q / ulp)) * ulp"
  have ulp: "0 < ulp" by (simp add: ulp_def pow2_pos)
  from ulp_le [OF assms] have "ulp \<le> q" by (simp add: ulp_def)
  with ulp have "1 \<le> q / ulp" by (simp add: field_simps)
  then have "1 \<le> \<lfloor>q / ulp\<rfloor>" by simp
  with round_half_even_ge [of "q / ulp"] have "1 \<le> round_half_even (q / ulp)" by linarith
  then have "0 < (of_int (round_half_even (q / ulp)) :: rat)" by simp
  with ulp have "0 < r" by (simp add: r_def)
  moreover from assms(1) have "round_double q = (if pow2 1024 \<le> r then PosInf else Fin r)"
    by (simp add: round_double_def Let_def r_def ulp_def)
  ultimately show ?thesis by simp
qed

lemma round_double_nonpos:
  assumes "q \<le> 0"
  shows "\<not> js_less (Fin 0) (round_double q)"
proof (cases "q = 0")
  case True
  then show ?thesis by (simp add: round_double_def)
next
  case False
  define ulp where "ulp = pow2 (max (ilog2 \<bar>q\<bar>) (- 1022) - 52)"
  define r where "r = of_int (round_half_even (\<bar>q\<bar> / ulp)) * ulp"
  have ulp: "0 < ulp" by (simp add: ulp_def pow2_pos)
  with False have "0 \<le> \<bar>q\<bar> / ulp" by simp
  then have "0 \<le> \<lfloor>\<bar>q\<bar> / ulp\<rfloor>" by simp
  with round_half_even_ge [of "\<bar>q\<bar> / ulp"] have "0 \<le> round_half_even (\<bar>q\<bar> / ulp)" by linarith
  with ulp have "0 \<le> r" by (simp add: r_def)
  moreover from False assms have "round_double q = (if pow2 1024 \<le> r then NegInf else Fin (- r))"
    by (simp add: round_double_def Let_def r_def ulp_def)
  ultimately show ?thesis by simp
qed

lemma round_double_on_grid:
  assumes "round_double q = Fin r"
  shows "on_grid r"
proof (cases "q = 0")
  case True
  with assms show ?thesis by (simp add: round_double_def on_grid_0)
next
  case False
  define e where "e = max (ilog2 \<bar>q\<bar>) (- 1022)"
  define m where "m = round_half_even (\<bar>q\<bar> / pow2 (e - 52))"
  from False assms have r: "r = (if 0 < q then of_int m * pow2 (e - 52) else - (of_int m * pow2 (e - 52)))"
    by (simp add: round_double_def Let_def m_def e_def split: if_splits)
  have "0 \<le> e + 1022" by (simp add: e_def)
  have "pow2 (e - 52) = 2 powi ((e + 1022) + (- 1074))" by (simp add: pow2_powi)
  also have "\<dots> = 2 powi (e + 1022) * 2 powi (- 1074)" by (rule power_int_add) simp
  also have "2 powi (e + 1022) = (2::rat) ^ nat (e + 1022)"
    using \<open>0 \<le> e + 1022\<close> by (rule power_int_nonneg_exp)
  finally have p: "pow2 (e - 52) = of_int (2 ^ nat (e + 1022)) * pow2 (- 1074)"
    by (simp add: pow2_powi)
  show ?thesis
  proof (cases "0 < q")
    case True
    with r p have "r = of_int (m * 2 ^ nat (e + 1022)) * pow2 (- 1074)" by simp
    then show ?thesis unfolding on_grid_def by blast
  next
    case False
    with r p have "r = of_int (- (m * 2 ^ nat (e + 1022))) * pow2 (- 1074)" by simp
    then show ?thesis unfolding on_grid_def by blast
  qed
qed

lemma compare_sign:
  assumes "on_grid a" "on_grid b"
  shows "js_less (Fin 0) (round_double (a - b)) \<longleftrightarrow> b < a"
proof (cases "b < a")
  case True
  with round_double_pos [of "a - b"] on_grid_diff [OF assms] show ?thesis by simp
next
  case False
  with round_double_nonpos [of "a - b"] show ?thesis by simp
qed

subsection \<open>The \<^verbatim>\<open>Map\<close>, the climate index and the deduplication loop\<close>

lemma Map_get_set: "Map_get (Map_set m k v) k' = (if k' = k then Some v else Map_get m k')"
  by (simp add: Map_get_def Map_set_def update_conv')

lemma Map_set_keys: "fst ` set (Map_set m k v) = insert k (fst ` set m)"
  by (simp add: Map_set_def dom_update)

lemma Map_set_distinct: "distinct (map fst m) \<Longrightarrow> distinct (map fst (Map_set m k v))"
  by (simp add: Map_set_def distinct_update)

lemma Map_set_entries:
  "distinct (map fst m) \<Longrightarrow> set (Map_set m k v) = insert (k, v) {p \<in> set m. fst p \<noteq> k}"
  unfolding Map_set_def by (induction m) (auto simp: image_iff)

lemma Map_get_None: "Map_get m k = None \<longleftrightarrow> k \<notin> fst ` set m"
  by (simp add: Map_get_def map_of_eq_None_iff)

lemma Map_get_Some: "distinct (map fst m) \<Longrightarrow> Map_get m k = Some v \<longleftrightarrow> (k, v) \<in> set m"
  by (simp add: Map_get_def)

text \<open>
  What the climate loop leaves in the index for a key: the entry of the last row with
  that key when the key is not empty, and what was there before otherwise.
\<close>

lemma climateIndex_loop_get:
  "Map_get (climateIndex_loop cs m) k =
     (case rev (filter (\<lambda>c. normalizeApn (c_apn c) = k) cs) of
        [] \<Rightarrow> Map_get m k
      | c # _ \<Rightarrow> if k = [] then Map_get m k else Some (climateEntry c))"
proof (induction cs arbitrary: m)
  case Nil
  then show ?case by simp
next
  case (Cons c cs)
  show ?case
    by (cases "rev (filter (\<lambda>c. normalizeApn (c_apn c) = k) cs)")
      (auto simp: Cons.IH Let_def Map_get_set)
qed

text \<open>
  On finite Numbers \<^verbatim>\<open><\<close> and \<^verbatim>\<open><=\<close> are a total order. The three lemmas after them say
  how \<^const>\<open>first_lowest_in_group\<close> survives one more candidate at the end of the input.
\<close>

lemma js_le_refl: "Number_isFinite a \<Longrightarrow> js_le a a"
  by (cases a) simp_all

lemma not_js_less: "Number_isFinite a \<Longrightarrow> Number_isFinite b \<Longrightarrow> \<not> js_less a b \<Longrightarrow> js_le b a"
  by (cases a; cases b) simp_all

lemma js_less_le_trans:
  "Number_isFinite a \<Longrightarrow> Number_isFinite b \<Longrightarrow> Number_isFinite c \<Longrightarrow>
   js_less a b \<Longrightarrow> js_le b c \<Longrightarrow> js_less a c"
  by (cases a; cases b; cases c) simp_all

lemma js_less_imp: "Number_isFinite a \<Longrightarrow> Number_isFinite b \<Longrightarrow> js_less a b \<Longrightarrow> js_le a b \<and> b \<noteq> a"
  by (cases a; cases b) simp_all

lemma first_lowest_snoc_other:
  assumes "first_lowest_in_group xs d" "r_napn x \<noteq> r_napn d"
  shows "first_lowest_in_group (xs @ [x]) d"
proof -
  from assms(1) obtain i where i: "i < length xs" "xs ! i = d"
    and m: "\<forall>j<length xs. r_napn (xs ! j) = r_napn d \<longrightarrow>
           js_le (r_price d) (r_price (xs ! j)) \<and> (r_price (xs ! j) = r_price d \<longrightarrow> i \<le> j)"
    unfolding first_lowest_in_group_def by blast
  show ?thesis
    unfolding first_lowest_in_group_def
  proof (rule exI [of _ i], intro conjI allI impI)
    show "i < length (xs @ [x])" using i by simp
    show "(xs @ [x]) ! i = d" using i by (simp add: nth_append)
  next
    fix j assume j: "j < length (xs @ [x])" and k: "r_napn ((xs @ [x]) ! j) = r_napn d"
    with assms(2) have "j < length xs" by (cases "j = length xs") (auto simp: nth_append)
    with m k have "js_le (r_price d) (r_price ((xs @ [x]) ! j)) \<and>
        (r_price ((xs @ [x]) ! j) = r_price d \<longrightarrow> i \<le> j)"
      by (simp add: nth_append)
    then show "js_le (r_price d) (r_price ((xs @ [x]) ! j))"
      and "r_price ((xs @ [x]) ! j) = r_price d \<Longrightarrow> i \<le> j" by simp_all
  qed
qed

lemma first_lowest_snoc_keep:
  assumes "first_lowest_in_group xs d" "js_le (r_price d) (r_price x)"
  shows "first_lowest_in_group (xs @ [x]) d"
proof -
  from assms(1) obtain i where i: "i < length xs" "xs ! i = d"
    and m: "\<forall>j<length xs. r_napn (xs ! j) = r_napn d \<longrightarrow>
           js_le (r_price d) (r_price (xs ! j)) \<and> (r_price (xs ! j) = r_price d \<longrightarrow> i \<le> j)"
    unfolding first_lowest_in_group_def by blast
  show ?thesis
    unfolding first_lowest_in_group_def
  proof (rule exI [of _ i], intro conjI allI impI)
    show "i < length (xs @ [x])" using i by simp
    show "(xs @ [x]) ! i = d" using i by (simp add: nth_append)
  next
    fix j assume j: "j < length (xs @ [x])" and k: "r_napn ((xs @ [x]) ! j) = r_napn d"
    have "js_le (r_price d) (r_price ((xs @ [x]) ! j)) \<and>
        (r_price ((xs @ [x]) ! j) = r_price d \<longrightarrow> i \<le> j)"
    proof (cases "j = length xs")
      case True
      with assms(2) i show ?thesis by simp
    next
      case False
      with j have "j < length xs" by simp
      with m k show ?thesis by (simp add: nth_append)
    qed
    then show "js_le (r_price d) (r_price ((xs @ [x]) ! j))"
      and "r_price ((xs @ [x]) ! j) = r_price d \<Longrightarrow> i \<le> j" by simp_all
  qed
qed

lemma first_lowest_snoc_new:
  assumes "\<forall>j<length xs. r_napn (xs ! j) = r_napn x \<longrightarrow>
             js_le (r_price x) (r_price (xs ! j)) \<and> r_price (xs ! j) \<noteq> r_price x"
    and "Number_isFinite (r_price x)"
  shows "first_lowest_in_group (xs @ [x]) x"
  unfolding first_lowest_in_group_def
proof (rule exI [of _ "length xs"], intro conjI allI impI)
  show "length xs < length (xs @ [x])" by simp
  show "(xs @ [x]) ! length xs = x" by simp
next
  fix j assume j: "j < length (xs @ [x])" and k: "r_napn ((xs @ [x]) ! j) = r_napn x"
  have "js_le (r_price x) (r_price ((xs @ [x]) ! j)) \<and>
      (r_price ((xs @ [x]) ! j) = r_price x \<longrightarrow> length xs \<le> j)"
  proof (cases "j = length xs")
    case True
    with assms(2) show ?thesis by (simp add: js_le_refl)
  next
    case False
    with j have "j < length xs" by simp
    with assms(1) k show ?thesis by (simp add: nth_append)
  qed
  then show "js_le (r_price x) (r_price ((xs @ [x]) ! j))"
    and "r_price ((xs @ [x]) ! j) = r_price x \<Longrightarrow> length xs \<le> j" by simp_all
qed

text \<open>
  The loop over \<open>xs @ [x]\<close> is the loop over \<open>xs\<close> followed by one step for \<open>x\<close>, and
  that step keeps \<^const>\<open>dedup_inv\<close>.
\<close>

lemma bestByApn_loop_append:
  "bestByApn_loop (xs @ ys) m = bestByApn_loop ys (bestByApn_loop xs m)"
  by (induction xs arbitrary: m) (auto split: option.splits)

lemma bestByApn_snoc:
  "bestByApn (xs @ [x]) =
     (case Map_get (bestByApn xs) (r_napn x) of
        None \<Rightarrow> Map_set (bestByApn xs) (r_napn x) x
      | Some existing \<Rightarrow>
          if js_less (r_price x) (r_price existing) then Map_set (bestByApn xs) (r_napn x) x
          else bestByApn xs)"
  by (simp add: bestByApn_def bestByApn_loop_append split: option.splits)

lemma dedup_inv_step:
  assumes inv: "dedup_inv xs m"
    and fin: "\<forall>c\<in>set (xs @ [x]). Number_isFinite (r_price c)"
  shows "dedup_inv (xs @ [x])
     (case Map_get m (r_napn x) of
        None \<Rightarrow> Map_set m (r_napn x) x
      | Some existing \<Rightarrow>
          if js_less (r_price x) (r_price existing) then Map_set m (r_napn x) x else m)"
proof -
  from inv have dist: "distinct (map fst m)" and keys: "fst ` set m = r_napn ` set xs"
    and ent: "\<And>p. p \<in> set m \<Longrightarrow> r_napn (snd p) = fst p \<and> first_lowest_in_group xs (snd p)"
    unfolding dedup_inv_def by blast+
  from fin have finx: "Number_isFinite (r_price x)"
    and finxs: "\<And>j. j < length xs \<Longrightarrow> Number_isFinite (r_price (xs ! j))" by simp_all
  have others: "r_napn (snd p) = fst p \<and> first_lowest_in_group (xs @ [x]) (snd p)"
    if "p \<in> set m" "fst p \<noteq> r_napn x" for p
    using ent [OF that(1)] that(2) by (auto intro: first_lowest_snoc_other)
  have replaced: "dedup_inv (xs @ [x]) (Map_set m (r_napn x) x)"
    if new: "first_lowest_in_group (xs @ [x]) x"
    unfolding dedup_inv_def
  proof (intro conjI ballI)
    show "distinct (map fst (Map_set m (r_napn x) x))" using dist by (rule Map_set_distinct)
    show "fst ` set (Map_set m (r_napn x) x) = r_napn ` set (xs @ [x])"
      by (simp add: Map_set_keys keys)
  next
    fix p assume "p \<in> set (Map_set m (r_napn x) x)"
    then have p: "p = (r_napn x, x) \<or> (p \<in> set m \<and> fst p \<noteq> r_napn x)"
      by (simp add: Map_set_entries [OF dist])
    from p show "r_napn (snd p) = fst p"
    proof
      assume "p = (r_napn x, x)" then show ?thesis by simp
    next
      assume "p \<in> set m \<and> fst p \<noteq> r_napn x" then show ?thesis using others [of p] by blast
    qed
    from p show "first_lowest_in_group (xs @ [x]) (snd p)"
    proof
      assume "p = (r_napn x, x)" then show ?thesis using new by simp
    next
      assume "p \<in> set m \<and> fst p \<noteq> r_napn x" then show ?thesis using others [of p] by blast
    qed
  qed
  show ?thesis
  proof (cases "Map_get m (r_napn x)")
    case None
    then have "r_napn x \<notin> r_napn ` set xs" by (simp add: Map_get_None keys)
    then have "\<forall>j<length xs. r_napn (xs ! j) \<noteq> r_napn x"
      by (metis imageI nth_mem)
    then have "first_lowest_in_group (xs @ [x]) x"
      using finx by (intro first_lowest_snoc_new) simp_all
    with None replaced show ?thesis by simp
  next
    case (Some existing)
    then have mem: "(r_napn x, existing) \<in> set m" by (simp add: Map_get_Some [OF dist])
    from ent [OF mem] have ex: "r_napn existing = r_napn x" "first_lowest_in_group xs existing"
      by simp_all
    from ex(2) obtain i where i: "i < length xs" "xs ! i = existing"
      and low: "\<forall>j<length xs. r_napn (xs ! j) = r_napn existing \<longrightarrow>
         js_le (r_price existing) (r_price (xs ! j))"
      unfolding first_lowest_in_group_def by blast
    from finxs [OF i(1)] i(2) have fine: "Number_isFinite (r_price existing)" by simp
    show ?thesis
    proof (cases "js_less (r_price x) (r_price existing)")
      case True
      have "\<forall>j<length xs. r_napn (xs ! j) = r_napn x \<longrightarrow>
             js_le (r_price x) (r_price (xs ! j)) \<and> r_price (xs ! j) \<noteq> r_price x"
      proof (intro allI impI)
        fix j assume j: "j < length xs" and k: "r_napn (xs ! j) = r_napn x"
        with low ex(1) have "js_le (r_price existing) (r_price (xs ! j))" by simp
        with True finx fine finxs [OF j] have "js_less (r_price x) (r_price (xs ! j))"
          by (blast intro: js_less_le_trans)
        with finx finxs [OF j] show "js_le (r_price x) (r_price (xs ! j)) \<and> r_price (xs ! j) \<noteq> r_price x"
          by (blast dest: js_less_imp)
      qed
      then have "first_lowest_in_group (xs @ [x]) x"
        using finx by (rule first_lowest_snoc_new)
      with Some True replaced show ?thesis by simp
    next
      case False
      with finx fine have le: "js_le (r_price existing) (r_price x)" by (blast intro: not_js_less)
      have "dedup_inv (xs @ [x]) m"
        unfolding dedup_inv_def
      proof (intro conjI ballI)
        show "distinct (map fst m)" by (rule dist)
        from mem have "r_napn x \<in> fst ` set m" by (metis fst_conv imageI)
        then show "fst ` set m = r_napn ` set (xs @ [x])"
          using keys by auto
      next
        fix p assume p: "p \<in> set m"
        show "r_napn (snd p) = fst p" using ent [OF p] by simp
        show "first_lowest_in_group (xs @ [x]) (snd p)"
        proof (cases "fst p = r_napn x")
          case True
          with p mem dist have "p = (r_napn x, existing)"
            by (metis Map_get_Some Some option.inject prod.collapse)
          with ex(2) le show ?thesis by (simp add: first_lowest_snoc_keep)
        next
          case False
          with others [OF p] show ?thesis by simp
        qed
      qed
      with Some False show ?thesis by simp
    qed
  qed
qed

lemma bestByApn_inv:
  "\<forall>c\<in>set cs. Number_isFinite (r_price c) \<Longrightarrow> dedup_inv cs (bestByApn cs)"
proof (induction cs rule: rev_induct)
  case Nil
  show ?case by (simp add: dedup_inv_def bestByApn_def)
next
  case (snoc x xs)
  from snoc.prems have "\<forall>c\<in>set xs. Number_isFinite (r_price c)" by simp
  then have "dedup_inv xs (bestByApn xs)" by (rule snoc.IH)
  from dedup_inv_step [OF this snoc.prems] show ?case by (simp only: bestByApn_snoc)
qed

lemma bestByApn_keys: "map r_napn (Map_values m) = map fst m" if "dedup_inv cs m"
  using that by (simp add: dedup_inv_def Map_values_def)

subsection \<open>Sorting, parsing and filtering\<close>

text \<open>
  The sort keeps length and elements whatever the comparator is. On rows whose prices
  are finite doubles the comparator \<^verbatim>\<open>a.price - b.price\<close> is positive exactly when
  \<open>b\<close> is cheaper, and the sort is the stable insertion sort by price.
\<close>

lemma length_insert_sorted: "length (insert_sorted cmp x ys) = Suc (length ys)"
  by (induction ys) simp_all

lemma set_insert_sorted: "set (insert_sorted cmp x ys) = insert x (set ys)"
  by (induction ys) auto

lemma length_Array_sort: "length (Array_sort cmp xs) = length xs"
  by (induction xs) (simp_all add: Array_sort_def length_insert_sorted)

lemma set_Array_sort: "set (Array_sort cmp xs) = set xs"
  by (induction xs) (simp_all add: Array_sort_def set_insert_sorted)

lemma compareFn_positive:
  assumes "double_price a" "double_price b"
  shows "js_less (Fin 0) (compareFn a b) \<longleftrightarrow> fin_val (price b) < fin_val (price a)"
proof -
  from assms obtain p q where "price a = Fin p" "on_grid p" "price b = Fin q" "on_grid q"
    unfolding double_price_def by blast
  then show ?thesis by (simp add: compareFn_def fin_val_def compare_sign)
qed

lemma insert_sorted_insort_key:
  assumes "double_price x" "\<forall>y\<in>set ys. double_price y"
  shows "insert_sorted compareFn x ys = insort_key (\<lambda>e. fin_val (price e)) x ys"
  using assms(2)
proof (induction ys)
  case Nil
  show ?case by simp
next
  case (Cons y ys)
  then have "double_price y" by simp
  from compareFn_positive [OF assms(1) this] Cons show ?case by (simp add: not_less)
qed

lemma Array_sort_sort_key:
  "\<forall>e\<in>set xs. double_price e \<Longrightarrow> Array_sort compareFn xs = sort_key (\<lambda>e. fin_val (price e)) xs"
proof (induction xs)
  case Nil
  show ?case by (simp add: Array_sort_def)
next
  case (Cons x xs)
  then have ih: "Array_sort compareFn xs = sort_key (\<lambda>e. fin_val (price e)) xs" by simp
  have "Array_sort compareFn (x # xs) = insert_sorted compareFn x (Array_sort compareFn xs)"
    by (simp add: Array_sort_def)
  also have "\<dots> = insort_key (\<lambda>e. fin_val (price e)) x (sort_key (\<lambda>e. fin_val (price e)) xs)"
    unfolding ih using Cons.prems by (intro insert_sorted_insort_key) simp_all
  finally show ?case by simp
qed

lemma Array_sort_sorted:
  assumes "\<forall>e\<in>set xs. double_price e"
  shows "sorted_wrt (\<lambda>a b. js_le (price a) (price b)) (Array_sort compareFn xs)"
proof -
  let ?out = "sort_key (\<lambda>e. fin_val (price e)) xs"
  have "sorted (map (\<lambda>e. fin_val (price e)) ?out)" by (rule sorted_sort_key)
  then have "sorted_wrt (\<lambda>a b. fin_val (price a) \<le> fin_val (price b)) ?out"
    by (simp add: sorted_wrt_map)
  moreover have "js_le (price a) (price b)"
    if "a \<in> set ?out" "b \<in> set ?out" "fin_val (price a) \<le> fin_val (price b)" for a b
  proof -
    from that(1,2) assms have "double_price a" "double_price b" by simp_all
    then obtain p q where "price a = Fin p" "price b = Fin q" unfolding double_price_def by blast
    with that(3) show ?thesis by (simp add: fin_val_def)
  qed
  ultimately have "sorted_wrt (\<lambda>a b. js_le (price a) (price b)) ?out"
    by (rule sorted_wrt_mono_rel [rotated]) blast
  then show ?thesis by (simp only: Array_sort_sort_key [OF assms])
qed

lemma Array_sort_stable:
  assumes "\<forall>e\<in>set xs. double_price e"
  shows "filter (\<lambda>e. price e = p) (Array_sort compareFn xs) = filter (\<lambda>e. price e = p) xs"
proof (cases p)
  case (Fin q)
  let ?f = "\<lambda>e. fin_val (price e)"
  have eq: "(price e = p) = (?f e = q)" if "e \<in> set xs" for e
  proof -
    from that assms obtain r where "price e = Fin r" unfolding double_price_def by blast
    then show ?thesis by (simp add: Fin fin_val_def)
  qed
  have "filter (\<lambda>e. price e = p) (sort_key ?f xs) = filter (\<lambda>e. ?f e = q) (sort_key ?f xs)"
    by (rule filter_cong) (simp_all add: eq)
  also have "\<dots> = filter (\<lambda>e. ?f e = q) xs" by (rule sort_key_stable)
  also have "\<dots> = filter (\<lambda>e. price e = p) xs"
    by (rule filter_cong) (simp_all add: eq)
  finally show ?thesis by (simp only: Array_sort_sort_key [OF assms])
next
  case PosInf
  have "price e \<noteq> p" if "e \<in> set xs" for e
    using that assms unfolding double_price_def PosInf by auto
  then show ?thesis by (simp add: set_Array_sort filter_empty_conv [THEN iffD2] )
next
  case NegInf
  have "price e \<noteq> p" if "e \<in> set xs" for e
    using that assms unfolding double_price_def NegInf by auto
  then show ?thesis by (simp add: set_Array_sort filter_empty_conv [THEN iffD2])
next
  case NaN
  have "price e \<noteq> p" if "e \<in> set xs" for e
    using that assms unfolding double_price_def NaN by auto
  then show ?thesis by (simp add: set_Array_sort filter_empty_conv [THEN iffD2])
qed

text \<open>
  Parsing fails exactly when some row fails, and a parsed listing has its price and
  area as strings, which \<^verbatim>\<open>num\<close> turns into doubles or into not-a-number.
\<close>

lemma map_parse_isl: "isl (map_parse f xs) \<longleftrightarrow> (\<exists>x\<in>set xs. isl (f x))"
  by (induction xs) (auto split: sum.splits)

lemma map_parse_Inr: "map_parse f xs = Inr ys \<Longrightarrow> \<forall>y\<in>set ys. \<exists>x\<in>set xs. f x = Inr y"
  by (induction xs arbitrary: ys) (auto split: sum.splits)

lemma ListingSchema_parse_isl:
  "isl (ListingSchema_parse r) \<longleftrightarrow>
     (\<exists>k\<in>set [''apn'', ''address'', ''zip'', ''price'', ''sqft'', ''status'']. r k = None)"
  by (auto simp: ListingSchema_parse_def split: option.splits)

lemma ClimateSchema_parse_isl: "isl (ClimateSchema_parse r) \<longleftrightarrow> r ''apn'' = None"
  by (auto simp: ClimateSchema_parse_def split: option.splits)

lemma ListingSchema_parse_Str:
  "ListingSchema_parse r = Inr l \<Longrightarrow> (\<exists>s. l_price l = Str s) \<and> (\<exists>s. l_sqft l = Str s)"
  by (auto simp: ListingSchema_parse_def split: option.splits)

lemma StringToNumber_on_grid: "StringToNumber s = Fin q \<Longrightarrow> on_grid q"
  by (auto simp: StringToNumber_def Let_def on_grid_0 round_double_on_grid split: option.splits if_splits)

lemma num_Str_on_grid: "num (Str s) = Fin q \<Longrightarrow> on_grid q"
  by (auto simp: num_def Let_def StringToNumber_on_grid split: if_splits)

text \<open>
  The filter as a \<^const>\<open>filter\<close>, and what holds of every row that it lets through.
\<close>

lemma cleaned_filter:
  "cleaned rs = map cleanRow (filter (\<lambda>r. \<not> (normalizeApn (l_apn r) = [] \<or> l_address r = [] \<or> l_zip r = []
      \<or> \<not> Number_isFinite (num (l_price r)) \<or> \<not> Number_isFinite (num (l_sqft r))
      \<or> toLowerCase (l_status r) \<notin> {''for_sale'', ''pending'', ''sold''})) rs)"
  by (induction rs) (simp_all add: Let_def allowedStatuses_def)

lemma cleaned_source: "r \<in> set (cleaned ls) \<Longrightarrow> \<exists>l\<in>set ls. r = cleanRow l"
  by (auto simp: cleaned_filter)

lemma cleaned_invariant:
  assumes "r \<in> set (cleaned ls)"
  shows "r_napn r \<noteq> [] \<and> r_address r \<noteq> [] \<and> r_zip r \<noteq> [] \<and> Number_isFinite (r_price r)
     \<and> Number_isFinite (r_sqft r) \<and> r_status r \<in> allowedStatuses"
  using assms by (auto simp: cleaned_filter cleanRow_def allowedStatuses_def)

lemma bestByApn_subset:
  assumes "\<forall>c\<in>set cs. Number_isFinite (r_price c)"
  shows "set (Map_values (bestByApn cs)) \<subseteq> set cs"
proof
  fix d assume "d \<in> set (Map_values (bestByApn cs))"
  then obtain p where "p \<in> set (bestByApn cs)" "d = snd p" by (auto simp: Map_values_def)
  with bestByApn_inv [OF assms] have "first_lowest_in_group cs d" by (simp add: dedup_inv_def)
  then show "d \<in> set cs" unfolding first_lowest_in_group_def by (metis nth_mem)
qed

subsection \<open>The stages together\<close>

lemma enrichRow_price [simp]: "price (enrichRow index r) = r_price r"
  and enrichRow_sqft [simp]: "sqft (enrichRow index r) = r_sqft r"
  and enrichRow_apn [simp]: "apn (enrichRow index r) = r_apn r"
  and enrichRow_status [simp]: "status (enrichRow index r) = r_status r"
  and enrichRow_pps [simp]:
    "price_per_sqft (enrichRow index r) = Math_round (js_divide (r_price r) (r_sqft r))"
  by (simp_all add: enrichRow_def Let_def)

lemma enrichRow_climate:
  "flood_zone (enrichRow index r) = (case Map_get index (r_napn r) of None \<Rightarrow> None | Some c \<Rightarrow> e_flood_zone c)"
  "avg_rain_inches (enrichRow index r) =
     (case Map_get index (r_napn r) of None \<Rightarrow> None | Some c \<Rightarrow> e_avg_rain_inches c)"
  by (simp_all add: enrichRow_def Let_def split: option.splits)

lemma dedup_of_cleaned:
  assumes "r \<in> set (Map_values (bestByApn (cleaned ls)))"
  shows "r \<in> set (cleaned ls)"
proof -
  have "\<forall>c\<in>set (cleaned ls). Number_isFinite (r_price c)"
    using cleaned_invariant by blast
  from bestByApn_subset [OF this] assms show ?thesis by blast
qed

lemma enrichedRows_source:
  assumes "e \<in> set (enrichedRows ls cs)"
  shows "\<exists>l\<in>set ls. e = enrichRow (climateIndex cs) (cleanRow l) \<and> cleanRow l \<in> set (cleaned ls)"
proof -
  from assms obtain r where r: "r \<in> set (Map_values (bestByApn (cleaned ls)))"
    and e: "e = enrichRow (climateIndex cs) r"
    by (auto simp: enrichedRows_def enriched_def)
  from dedup_of_cleaned [OF r] have c: "r \<in> set (cleaned ls)" .
  with cleaned_source obtain l where "l \<in> set ls" "r = cleanRow l" by blast
  with e c show ?thesis by blast
qed

lemma enrichedRows_double_price:
  assumes "map_parse ListingSchema_parse listingsData = Inr ls"
    and "e \<in> set (enrichedRows ls cs)"
  shows "double_price e"
proof -
  from enrichedRows_source [OF assms(2)] obtain l where l: "l \<in> set ls"
    and e: "e = enrichRow (climateIndex cs) (cleanRow l)" and c: "cleanRow l \<in> set (cleaned ls)"
    by blast
  from map_parse_Inr [OF assms(1)] l obtain raw where "ListingSchema_parse raw = Inr l" by blast
  from ListingSchema_parse_Str [OF this] obtain s where s: "l_price l = Str s" by blast
  from cleaned_invariant [OF c] have "Number_isFinite (r_price (cleanRow l))" by simp
  then obtain q where q: "r_price (cleanRow l) = Fin q" by (cases "r_price (cleanRow l)") simp_all
  with s have "num (Str s) = Fin q" by (simp add: cleanRow_def)
  from num_Str_on_grid [OF this] q e show ?thesis by (simp add: double_price_def)
qed

lemma enrichParsed_Inr:
  assumes "map_parse ListingSchema_parse listingsData = Inr ls"
    and "map_parse ClimateSchema_parse climateData = Inr cs"
  shows "enrichParsed listingsData climateData = Inr (Array_sort compareFn (enrichedRows ls cs))"
  using assms by (simp add: enrichParsed_def)

lemma enrichParsed_InrD:
  assumes "enrichParsed listingsData climateData = Inr out"
  obtains ls cs where "map_parse ListingSchema_parse listingsData = Inr ls"
    and "map_parse ClimateSchema_parse climateData = Inr cs"
    and "out = Array_sort compareFn (enrichedRows ls cs)"
  using assms by (auto simp: enrichParsed_def split: sum.splits)

lemma round_double_not_NaN: "round_double q \<noteq> NaN"
  by (simp add: round_double_def Let_def)

lemma Math_round_NaN: "Math_round x = NaN \<longleftrightarrow> x = NaN"
  by (cases x) simp_all

lemma Math_round_finite: "Number_isFinite (Math_round x) \<longleftrightarrow> Number_isFinite x"
  by (cases x) simp_all

subsection \<open>Evaluation on the sample inputs\<close>

lemma floor_rat_numeral [simp]: "\<lfloor>numeral a / numeral b :: rat\<rfloor> = numeral a div numeral b"
  by (metis floor_divide_of_int_eq of_int_numeral)

lemma floor_rat_one [simp]: "\<lfloor>1 / numeral b :: rat\<rfloor> = 1 div numeral b"
  by (metis floor_divide_of_int_eq of_int_1 of_int_numeral)

lemmas round_double_eval = round_double_def ilog2_def pow2_def round_half_even_def Let_def bitlen.simps

lemmas StringToNumber_eval = StringToNumber_def trimWhiteSpace_def isWhiteSpace_def parseNonDecimal_def
  parseUnsignedDecimal_def parseExponent_def unsignedInt_def digitsVal_def digitVal_def isDigit_def
  pow10_def parseRadix_def radixDigit_def

lemma num_evals:
  "num (Str ''450000'') = Fin 450000"
  "num (Str ''440000'') = Fin 440000"
  "num (Str ''800000'') = Fin 800000"
  "num (Str ''1600'') = Fin 1600"
  "num (Str ''2200'') = Fin 2200"
  "num (Str ''0'') = Fin 0"
  "num (Str ''2'') = Fin 2"
  "num (Str ''3'') = Fin 3"
  "num (Str ''n/a'') = NaN"
  by (simp_all add: num_def StringToNumber_eval round_double_eval)

lemma num_52_1: "num (Str ''52.1'') = Fin (7332423143312589 / 140737488355328)"
  by (simp add: num_def StringToNumber_eval round_double_eval)

lemma num_long_price: "num (Str ''2.5000000000000004'') = Fin (5629499534213121 / 2251799813685248)"
  by (simp add: num_def StringToNumber_eval round_double_eval)

lemma num_long_sqft: "num (Str ''1.0000000000000002'') = Fin (4503599627370497 / 4503599627370496)"
  by (simp add: num_def StringToNumber_eval round_double_eval)

lemma long_quotient:
  "(5629499534213121 / 2251799813685248) / (4503599627370497 / 4503599627370496)
     = (11258999068426242 / 4503599627370497 :: rat)"
  "round_double (11258999068426242 / 4503599627370497) = Fin (5 / 2)"
  by (simp_all add: round_double_eval)

lemma round_double_275: "round_double 275 = Fin 275"
  by (simp add: round_double_eval)

lemma round_double_281: "round_double (1125 / 4) = Fin (1125 / 4)"
  by (simp add: round_double_eval)

lemma normalizeApn_evals:
  "normalizeApn ''12-34-567890'' = ''1234567890''"
  "normalizeApn ''1234567890'' = ''1234567890''"
  "normalizeApn ''55-66-777888'' = ''5566777888''"
  "normalizeApn ''n/a'' = []"
  by (simp_all add: normalizeApn_def isDigit_def)

lemma toLowerCase_evals:
  "toLowerCase ''Pending'' = ''pending''"
  "toLowerCase ''pending'' = ''pending''"
  "toLowerCase ''pending '' = ''pending ''"
  "toLowerCase ''for_sale'' = ''for_sale''"
  "toLowerCase ''sold'' = ''sold''"
  by (simp_all add: toLowerCase_def toLowerCase_char_def Let_def char_of_eq_iff)

lemma parse_demo_listing:
  "ListingSchema_parse (demo_listing(''price'' \<mapsto> p, ''sqft'' \<mapsto> sq))
     = Inr (sample_listing ''12-34-567890'' p sq ''for_sale'')"
  by (simp add: ListingSchema_parse_def demo_listing_def sample_listing_def)

lemma parse_demo_listing0:
  "ListingSchema_parse demo_listing = Inr (sample_listing ''12-34-567890'' ''450000'' ''1600'' ''for_sale'')"
  by (simp add: ListingSchema_parse_def demo_listing_def sample_listing_def)

lemma parse_demo_short_row: "ListingSchema_parse demo_short_row = Inl (ZodError [''status''])"
  by (simp add: ListingSchema_parse_def demo_short_row_def missingKeys_def)

lemma parse_demo_climate:
  "ClimateSchema_parse (demo_climate(''avg_rain_inches'' \<mapsto> rain)) = Inr (sample_climate ''1234567890'' ''AE'' rain)"
  by (simp add: ClimateSchema_parse_def demo_climate_def sample_climate_def)

lemma parse_demo_climate0:
  "ClimateSchema_parse demo_climate = Inr (sample_climate ''1234567890'' ''AE'' ''52.1'')"
  by (simp add: ClimateSchema_parse_def demo_climate_def sample_climate_def)

lemma cleaned_sample:
  "cleaned [sample_listing ''12-34-567890'' ''450000'' ''1600'' ''for_sale'']
     = [cleanRow (sample_listing ''12-34-567890'' ''450000'' ''1600'' ''for_sale'')]"
  "cleaned [sample_listing ''12-34-567890'' ''450000'' ''0'' ''for_sale'']
     = [cleanRow (sample_listing ''12-34-567890'' ''450000'' ''0'' ''for_sale'')]"
  "cleaned [sample_listing ''12-34-567890'' ''2.5000000000000004'' ''1.0000000000000002'' ''for_sale'']
     = [cleanRow (sample_listing ''12-34-567890'' ''2.5000000000000004'' ''1.0000000000000002'' ''for_sale'')]"
  by (simp_all add: sample_listing_def num_evals num_long_price num_long_sqft normalizeApn_evals
      toLowerCase_evals allowedStatuses_def)

lemma cleaned_sample_440000:
  "cleaned [sample_listing ''12-34-567890'' ''440000'' ''1600'' ''for_sale'']
     = [cleanRow (sample_listing ''12-34-567890'' ''440000'' ''1600'' ''for_sale'')]"
  by (simp add: sample_listing_def num_evals normalizeApn_evals toLowerCase_evals allowedStatuses_def)

lemma bestByApn_single: "Map_values (bestByApn [r]) = [r]"
  by (simp add: bestByApn_def Map_get_def Map_set_def Map_values_def)

lemma Array_sort_single: "Array_sort cmp [x] = [x]"
  by (simp add: Array_sort_def)

lemma enrichParsed_single:
  assumes "ListingSchema_parse raw = Inr l" and "cleaned [l] = [cleanRow l]"
    and "map_parse ClimateSchema_parse climateData = Inr cs"
  shows "enrichParsed [raw] climateData = Inr [enrichRow (climateIndex cs) (cleanRow l)]"
proof -
  from assms(1) have "map_parse ListingSchema_parse [raw] = Inr [l]" by simp
  from enrichParsed_Inr [OF this assms(3)] show ?thesis
    by (simp only: enrichedRows_def enriched_def assms(2) bestByApn_single list.map Array_sort_single)
qed

lemma climateIndex_evals:
  "climateIndex [] = []"
  "climateIndex [sample_climate ''1234567890'' z rain]
     = [(''1234567890'', climateEntry (sample_climate ''1234567890'' z rain))]"
  by (simp_all add: climateIndex_def Let_def Map_set_def sample_climate_def normalizeApn_evals)

lemma dedup_example_values:
  "Map_values (bestByApn dedup_example)
     = [cleanRow (sample_listing ''12-34-567890'' ''440000'' ''1600'' ''for_sale''),
        cleanRow (sample_listing ''55-66-777888'' ''800000'' ''2200'' ''Pending'')]"
  by (simp add: dedup_example_def bestByApn_def Map_get_def Map_set_def Map_values_def
      cleanRow_def sample_listing_def num_evals normalizeApn_evals)

section \<open>The claims of the specification\<close>

subsection \<open>C1: deduplication keeps the first candidate of lowest price\<close>

text \<open>
  Claim C1. For every sequence \<open>cs\<close> of candidates that passed the filter (so every price
  is finite), the values of \<^verbatim>\<open>bestByApn\<close> hold exactly one candidate for each normalized
  identifier that occurs in \<open>cs\<close>, and each of them is the candidate of lowest price of
  its group, the first one in input order when that price occurs more than once.
\<close>

theorem dedup_keeps_first_lowest:
  assumes "\<forall>c\<in>set cs. Number_isFinite (r_price c)"
  shows "distinct (map r_napn (Map_values (bestByApn cs)))
       \<and> set (map r_napn (Map_values (bestByApn cs))) = r_napn ` set cs
       \<and> (\<forall>d\<in>set (Map_values (bestByApn cs)). first_lowest_in_group cs d)"
proof -
  from bestByApn_inv [OF assms] have inv: "dedup_inv cs (bestByApn cs)" .
  then have keys: "map r_napn (Map_values (bestByApn cs)) = map fst (bestByApn cs)"
    by (rule bestByApn_keys)
  from inv have "distinct (map fst (bestByApn cs))" "fst ` set (bestByApn cs) = r_napn ` set cs"
    and "\<forall>p\<in>set (bestByApn cs). first_lowest_in_group cs (snd p)"
    by (simp_all add: dedup_inv_def)
  then show ?thesis by (simp add: keys) (simp add: Map_values_def)
qed

text \<open>
  On four candidates, three of them for the parcel \<open>1234567890\<close> at 450000, 440000 and
  440000: the second one is kept, and the parcel keeps the first place in the \<^verbatim>\<open>Map\<close>.
\<close>

theorem dedup_keeps_first_lowest_witness:
  "list_all (\<lambda>c. Number_isFinite (r_price c)) dedup_example
   \<and> Map_values (bestByApn dedup_example)
       = [cleanRow (sample_listing ''12-34-567890'' ''440000'' ''1600'' ''for_sale''),
          cleanRow (sample_listing ''55-66-777888'' ''800000'' ''2200'' ''Pending'')]
   \<and> first_lowest_in_group dedup_example
        (cleanRow (sample_listing ''12-34-567890'' ''440000'' ''1600'' ''for_sale''))
   \<and> first_lowest_in_group dedup_example
        (cleanRow (sample_listing ''55-66-777888'' ''800000'' ''2200'' ''Pending''))"
proof -
  have fin: "\<forall>c\<in>set dedup_example. Number_isFinite (r_price c)"
    by (simp add: dedup_example_def cleanRow_def sample_listing_def num_evals)
  note ev = dedup_example_values
  from dedup_keeps_first_lowest [OF fin]
  have "\<forall>d\<in>set (Map_values (bestByApn dedup_example)). first_lowest_in_group dedup_example d"
    by blast
  then have "first_lowest_in_group dedup_example
        (cleanRow (sample_listing ''12-34-567890'' ''440000'' ''1600'' ''for_sale''))"
    and "first_lowest_in_group dedup_example
        (cleanRow (sample_listing ''55-66-777888'' ''800000'' ''2200'' ''Pending''))"
    by (simp_all only: ev list.set ball_simps insert_iff simp_thms)
  with fin ev show ?thesis by (simp only: list_all_iff simp_thms)
qed

subsection \<open>C2: what the filter drops\<close>

text \<open>
  Claim C2. The filter keeps, in order, the rows built from exactly those validated
  listings for which none of the following holds: the normalized identifier is empty, the
  address is empty, the zip is empty, the coerced price is not finite, the coerced area is
  not finite, the lower-cased status is not one of \<open>for_sale\<close>, \<open>pending\<close>, \<open>sold\<close>. The
  other listings leave no trace (the result is a list of rows, there is no error value),
  and the status of a row that is kept is the lower-cased status of its listing.
\<close>

theorem filter_drops_exactly:
  "cleaned rs = map cleanRow (filter (\<lambda>r. \<not> (normalizeApn (l_apn r) = [] \<or> l_address r = [] \<or> l_zip r = []
      \<or> \<not> Number_isFinite (num (l_price r)) \<or> \<not> Number_isFinite (num (l_sqft r))
      \<or> toLowerCase (l_status r) \<notin> {''for_sale'', ''pending'', ''sold''})) rs)
   \<and> r_status (cleanRow r) = toLowerCase (l_status r)"
proof
  show "cleaned rs = map cleanRow (filter (\<lambda>r. \<not> (normalizeApn (l_apn r) = [] \<or> l_address r = [] \<or> l_zip r = []
      \<or> \<not> Number_isFinite (num (l_price r)) \<or> \<not> Number_isFinite (num (l_sqft r))
      \<or> toLowerCase (l_status r) \<notin> {''for_sale'', ''pending'', ''sold''})) rs)"
  proof (induction rs)
    case Nil
    show ?case by simp
  next
    case (Cons r rs)
    then show ?case by (simp add: Let_def allowedStatuses_def)
  qed
  show "r_status (cleanRow r) = toLowerCase (l_status r)"
    by (simp add: cleanRow_def)
qed

text \<open>The listing with status \<open>Pending\<close> is kept, with status \<open>pending\<close>.\<close>

theorem filter_drops_exactly_witness:
  "cleaned [sample_listing ''55-66-777888'' ''800000'' ''2200'' ''Pending'']
     = [cleanRow (sample_listing ''55-66-777888'' ''800000'' ''2200'' ''Pending'')]
   \<and> r_status (cleanRow (sample_listing ''55-66-777888'' ''800000'' ''2200'' ''Pending'')) = ''pending''"
proof -
  have l: "l_status (sample_listing ''55-66-777888'' ''800000'' ''2200'' ''Pending'') = ''Pending''"
    by (simp add: sample_listing_def)
  have keep: "\<not> (normalizeApn (l_apn r) = [] \<or> l_address r = [] \<or> l_zip r = []
      \<or> \<not> Number_isFinite (num (l_price r)) \<or> \<not> Number_isFinite (num (l_sqft r))
      \<or> toLowerCase (l_status r) \<notin> {''for_sale'', ''pending'', ''sold''})"
    if "r = sample_listing ''55-66-777888'' ''800000'' ''2200'' ''Pending''" for r
    by (simp add: that sample_listing_def num_evals normalizeApn_evals toLowerCase_evals)
  from filter_drops_exactly [of "[sample_listing ''55-66-777888'' ''800000'' ''2200'' ''Pending'']"
      "sample_listing ''55-66-777888'' ''800000'' ''2200'' ''Pending''"] keep
  show ?thesis by (simp add: l toLowerCase_evals)
qed

subsection \<open>C3: a rain value that is not a number\<close>

text \<open>
  Claim C3, as amended. For every climate row whose \<open>avg_rain_inches\<close> is present and not
  the empty string but is not a finite number, the \<open>avg_rain_inches\<close> of every output row
  joined to the entry of that climate row is not-a-number: \<^verbatim>\<open>num\<close> returns \<^verbatim>\<open>NaN\<close> and
  nothing between the index and the output turns it into \<^verbatim>\<open>null\<close>.
\<close>

theorem unparsable_rain_is_NaN:
  assumes "c_avg_rain_inches c = Some v" and "v \<noteq> Str []"
    and "\<not> Number_isFinite (Number_of v)"
    and "Map_get index (r_napn r) = Some (climateEntry c)"
  shows "avg_rain_inches (enrichRow index r) = Some NaN"
  using assms by (simp add: enrichRow_climate climateEntry_def num_def)

theorem unparsable_rain_is_NaN_witness:
  "c_avg_rain_inches (sample_climate ''1234567890'' ''AE'' ''n/a'') = Some (Str ''n/a'')
   \<and> Str ''n/a'' \<noteq> Str []
   \<and> \<not> Number_isFinite (Number_of (Str ''n/a''))
   \<and> Map_get (climateIndex [sample_climate ''1234567890'' ''AE'' ''n/a''])
        (r_napn (cleanRow (sample_listing ''12-34-567890'' ''450000'' ''1600'' ''for_sale'')))
       = Some (climateEntry (sample_climate ''1234567890'' ''AE'' ''n/a''))
   \<and> avg_rain_inches (enrichRow (climateIndex [sample_climate ''1234567890'' ''AE'' ''n/a''])
        (cleanRow (sample_listing ''12-34-567890'' ''450000'' ''1600'' ''for_sale''))) = Some NaN"
proof -
  have a: "c_avg_rain_inches (sample_climate ''1234567890'' ''AE'' ''n/a'') = Some (Str ''n/a'')"
    by (simp add: sample_climate_def)
  have b: "Str ''n/a'' \<noteq> Str []" by simp
  have c: "\<not> Number_isFinite (Number_of (Str ''n/a''))"
    by (simp add: StringToNumber_eval)
  have d: "Map_get (climateIndex [sample_climate ''1234567890'' ''AE'' ''n/a''])
        (r_napn (cleanRow (sample_listing ''12-34-567890'' ''450000'' ''1600'' ''for_sale'')))
       = Some (climateEntry (sample_climate ''1234567890'' ''AE'' ''n/a''))"
    by (simp only: climateIndex_evals) (simp add: Map_get_def cleanRow_def sample_listing_def normalizeApn_evals)
  from unparsable_rain_is_NaN [OF a b c d] a b c d show ?thesis by blast
qed

text \<open>
  The claim as it was stated asks for \<^verbatim>\<open>null\<close> there. The demo listing joined to a climate
  row whose rain value is the text \<open>n/a\<close> comes out with \<^verbatim>\<open>NaN\<close>.
\<close>

theorem unparsable_rain_counterexample:
  "enrichParsed [demo_listing] [demo_climate(''avg_rain_inches'' \<mapsto> ''n/a'')]
     = Inr [\<lparr> apn = ''12-34-567890'', full_address = ''12 Oak St, Orlando, FL 32801'',
              price = Fin 450000, beds = Some (Fin 3), baths = Some (Fin 2), sqft = Fin 1600,
              price_per_sqft = Fin 281, status = ''for_sale'', flood_zone = Some ''AE'',
              avg_rain_inches = Some NaN \<rparr>]"
proof -
  have "map_parse ClimateSchema_parse [demo_climate(''avg_rain_inches'' \<mapsto> ''n/a'')]
      = Inr [sample_climate ''1234567890'' ''AE'' ''n/a'']"
    by (simp add: parse_demo_climate)
  from enrichParsed_single [OF parse_demo_listing0 cleaned_sample(1) this] show ?thesis
    by (simp only: climateIndex_evals) (simp add: enrichRow_def Let_def Map_get_def climateEntry_def cleanRow_def
        sample_listing_def sample_climate_def num_evals normalizeApn_evals toLowerCase_evals
        round_double_281)
qed

subsection \<open>C4: price per square foot when the area is zero\<close>

text \<open>
  Claim C4, as amended. For every deduplicated candidate the computation of
  \<open>price_per_sqft\<close> returns a Number and never raises (division and \<^verbatim>\<open>Math.round\<close> are
  total). The filter guarantees that price and area are finite; it does not guarantee
  that the area is nonzero. When the area is \<open>0\<close> the result is not finite: it is
  not-a-number when the price is \<open>0\<close> as well, and an infinity otherwise. When the area is
  not \<open>0\<close> the result is never not-a-number.
\<close>

theorem price_per_sqft_zero_sqft:
  assumes "r \<in> set (Map_values (bestByApn (cleaned listingRows)))"
  shows "Number_isFinite (r_price r) \<and> Number_isFinite (r_sqft r)
     \<and> (r_sqft r = Fin 0 \<longrightarrow>
           \<not> Number_isFinite (price_per_sqft (enrichRow index r))
           \<and> (price_per_sqft (enrichRow index r) = NaN \<longleftrightarrow> r_price r = Fin 0))
     \<and> (r_sqft r \<noteq> Fin 0 \<longrightarrow> price_per_sqft (enrichRow index r) \<noteq> NaN)"
proof -
  from cleaned_invariant [OF dedup_of_cleaned [OF assms]]
  have "Number_isFinite (r_price r)" "Number_isFinite (r_sqft r)" by simp_all
  then obtain p s where "r_price r = Fin p" "r_sqft r = Fin s"
    by (cases "r_price r"; cases "r_sqft r") simp_all
  then show ?thesis by (simp add: Math_round_NaN round_double_not_NaN)
qed

theorem price_per_sqft_zero_sqft_witness:
  "cleanRow (sample_listing ''12-34-567890'' ''450000'' ''0'' ''for_sale'')
     \<in> set (Map_values (bestByApn (cleaned [sample_listing ''12-34-567890'' ''450000'' ''0'' ''for_sale''])))
   \<and> r_sqft (cleanRow (sample_listing ''12-34-567890'' ''450000'' ''0'' ''for_sale'')) = Fin 0
   \<and> \<not> Number_isFinite (price_per_sqft (enrichRow []
          (cleanRow (sample_listing ''12-34-567890'' ''450000'' ''0'' ''for_sale''))))"
proof -
  have a: "cleanRow (sample_listing ''12-34-567890'' ''450000'' ''0'' ''for_sale'')
     \<in> set (Map_values (bestByApn (cleaned [sample_listing ''12-34-567890'' ''450000'' ''0'' ''for_sale''])))"
    by (simp only: cleaned_sample bestByApn_single) simp
  have b: "r_sqft (cleanRow (sample_listing ''12-34-567890'' ''450000'' ''0'' ''for_sale'')) = Fin 0"
    by (simp add: cleanRow_def sample_listing_def num_evals)
  from price_per_sqft_zero_sqft [OF a, of "[]"] a b show ?thesis by blast
qed

text \<open>
  The claim as it was stated excludes a result that is not finite. The demo listing with
  area \<open>0\<close> passes the filter and comes out with \<open>price_per_sqft\<close> infinite.
\<close>

theorem price_per_sqft_finite_counterexample:
  "enrichParsed [demo_listing(''sqft'' \<mapsto> ''0'')] []
     = Inr [\<lparr> apn = ''12-34-567890'', full_address = ''12 Oak St, Orlando, FL 32801'',
              price = Fin 450000, beds = Some (Fin 3), baths = Some (Fin 2), sqft = Fin 0,
              price_per_sqft = PosInf, status = ''for_sale'', flood_zone = None,
              avg_rain_inches = None \<rparr>]"
proof -
  have p: "ListingSchema_parse (demo_listing(''sqft'' \<mapsto> ''0''))
      = Inr (sample_listing ''12-34-567890'' ''450000'' ''0'' ''for_sale'')"
    by (simp add: ListingSchema_parse_def demo_listing_def sample_listing_def)
  have "map_parse ClimateSchema_parse [] = Inr []" by simp
  from enrichParsed_single [OF p cleaned_sample(2) this] show ?thesis
    by (simp only: climateIndex_evals) (simp add: enrichRow_def Let_def Map_get_def cleanRow_def
        sample_listing_def num_evals normalizeApn_evals toLowerCase_evals)
qed

subsection \<open>C5: price per square foot is the rounded quotient\<close>

text \<open>
  Claim C5, as amended. For every row of the output, \<open>price_per_sqft\<close> is \<^verbatim>\<open>Math.round\<close> of
  the quotient \<^verbatim>\<open>price / sqft\<close> of the row's own fields, where the quotient is the one of
  double arithmetic: price and area are finite, and for a nonzero area the quotient is
  the exact quotient rounded to the nearest double.
\<close>

theorem price_per_sqft_rounds_double_quotient:
  assumes "enrichParsed listingsData climateData = Inr out"
  shows "\<forall>e\<in>set out. price_per_sqft e = Math_round (js_divide (price e) (sqft e))
     \<and> (\<exists>p s. price e = Fin p \<and> sqft e = Fin s
           \<and> (s \<noteq> 0 \<longrightarrow> price_per_sqft e = Math_round (round_double (p / s))))"
proof
  fix e assume e: "e \<in> set out"
  from assms obtain ls cs where out: "out = Array_sort compareFn (enrichedRows ls cs)"
    by (rule enrichParsed_InrD)
  with e have "e \<in> set (enrichedRows ls cs)" by (simp add: set_Array_sort)
  from enrichedRows_source [OF this] obtain l where
    el: "e = enrichRow (climateIndex cs) (cleanRow l)" and c: "cleanRow l \<in> set (cleaned ls)"
    by blast
  from cleaned_invariant [OF c]
  have "Number_isFinite (r_price (cleanRow l))" "Number_isFinite (r_sqft (cleanRow l))" by simp_all
  then obtain p s where "r_price (cleanRow l) = Fin p" "r_sqft (cleanRow l) = Fin s"
    by (cases "r_price (cleanRow l)"; cases "r_sqft (cleanRow l)") simp_all
  then show "price_per_sqft e = Math_round (js_divide (price e) (sqft e))
     \<and> (\<exists>p s. price e = Fin p \<and> sqft e = Fin s
           \<and> (s \<noteq> 0 \<longrightarrow> price_per_sqft e = Math_round (round_double (p / s))))"
    by (simp add: el)
qed

text \<open>The scenario of the specification: 440000 for 1600 square feet gives 275.\<close>

theorem price_per_sqft_rounds_double_quotient_witness:
  "enrichParsed [demo_listing(''price'' \<mapsto> ''440000'')] [demo_climate]
     = Inr [\<lparr> apn = ''12-34-567890'', full_address = ''12 Oak St, Orlando, FL 32801'',
              price = Fin 440000, beds = Some (Fin 3), baths = Some (Fin 2), sqft = Fin 1600,
              price_per_sqft = Fin 275, status = ''for_sale'', flood_zone = Some ''AE'',
              avg_rain_inches = Some (Fin (7332423143312589 / 140737488355328)) \<rparr>]
   \<and> Math_round (round_double (440000 / 1600)) = Fin 275"
proof -
  have p: "ListingSchema_parse (demo_listing(''price'' \<mapsto> ''440000''))
      = Inr (sample_listing ''12-34-567890'' ''440000'' ''1600'' ''for_sale'')"
    by (simp add: ListingSchema_parse_def demo_listing_def sample_listing_def)
  have cs: "map_parse ClimateSchema_parse [demo_climate] = Inr [sample_climate ''1234567890'' ''AE'' ''52.1'']"
    by (simp add: parse_demo_climate0)
  have out: "enrichParsed [demo_listing(''price'' \<mapsto> ''440000'')] [demo_climate]
     = Inr [\<lparr> apn = ''12-34-567890'', full_address = ''12 Oak St, Orlando, FL 32801'',
              price = Fin 440000, beds = Some (Fin 3), baths = Some (Fin 2), sqft = Fin 1600,
              price_per_sqft = Fin 275, status = ''for_sale'', flood_zone = Some ''AE'',
              avg_rain_inches = Some (Fin (7332423143312589 / 140737488355328)) \<rparr>]"
    using enrichParsed_single [OF p cleaned_sample_440000 cs]
    by (simp only: climateIndex_evals) (simp add: enrichRow_def Let_def Map_get_def climateEntry_def cleanRow_def
        sample_listing_def sample_climate_def num_evals num_52_1 normalizeApn_evals toLowerCase_evals
        round_double_275)
  from price_per_sqft_rounds_double_quotient [OF out] have "Math_round (round_double (440000 / 1600)) = Fin 275"
    by simp
  with out show ?thesis by (rule conjI)
qed

text \<open>
  The claim as it was stated rounds the exact quotient. For the price
  \<open>2.5000000000000004\<close> and the area \<open>1.0000000000000002\<close> (both are read as the nearest
  doubles, \<open>5/2 + 2\<^sup>-\<^sup>5\<^sup>1\<close> and \<open>1 + 2\<^sup>-\<^sup>5\<^sup>2\<close>) the exact quotient is below \<open>5/2\<close> and rounds to 2,
  while the quotient of doubles is \<open>5/2\<close> and the row has \<open>price_per_sqft\<close> 3.
\<close>

theorem price_per_sqft_exact_quotient_counterexample:
  "enrichParsed [demo_listing(''price'' \<mapsto> ''2.5000000000000004'', ''sqft'' \<mapsto> ''1.0000000000000002'')] []
     = Inr [\<lparr> apn = ''12-34-567890'', full_address = ''12 Oak St, Orlando, FL 32801'',
              price = Fin (5629499534213121 / 2251799813685248), beds = Some (Fin 3),
              baths = Some (Fin 2), sqft = Fin (4503599627370497 / 4503599627370496),
              price_per_sqft = Fin 3, status = ''for_sale'', flood_zone = None,
              avg_rain_inches = None \<rparr>]
   \<and> Math_round (Fin ((5629499534213121 / 2251799813685248) / (4503599627370497 / 4503599627370496)))
       = Fin 2"
proof -
  have "enrichParsed [demo_listing(''price'' \<mapsto> ''2.5000000000000004'', ''sqft'' \<mapsto> ''1.0000000000000002'')] []
     = Inr [\<lparr> apn = ''12-34-567890'', full_address = ''12 Oak St, Orlando, FL 32801'',
              price = Fin (5629499534213121 / 2251799813685248), beds = Some (Fin 3),
              baths = Some (Fin 2), sqft = Fin (4503599627370497 / 4503599627370496),
              price_per_sqft = Fin 3, status = ''for_sale'', flood_zone = None,
              avg_rain_inches = None \<rparr>]"
    using enrichParsed_single [OF parse_demo_listing cleaned_sample(3), of "[]" "[]"]
    by (simp only: climateIndex_evals) (simp add: enrichRow_def Let_def Map_get_def cleanRow_def
        sample_listing_def num_evals num_long_price num_long_sqft normalizeApn_evals toLowerCase_evals
        long_quotient)
  moreover have "Math_round (Fin ((5629499534213121 / 2251799813685248) / (4503599627370497 / 4503599627370496)))
       = Fin 2"
    by simp
  ultimately show ?thesis by (rule conjI)
qed

subsection \<open>C6: the join is a left join\<close>

text \<open>
  Claim C6. The enrichment produces one output row for each deduplicated candidate, in
  the same order and for the same listing; a candidate whose normalized identifier has no
  entry in the climate index gets \<open>flood_zone\<close> and \<open>avg_rain_inches\<close> null; the row of
  every candidate is in the sorted output; and the sorted output has as many rows as
  there are deduplicated candidates.
\<close>

theorem left_join_keeps_every_candidate:
  "length (enriched index best) = length (Map_values best)
   \<and> map apn (enriched index best) = map r_apn (Map_values best)
   \<and> (\<forall>r\<in>set (Map_values best). Map_get index (r_napn r) = None \<longrightarrow>
         flood_zone (enrichRow index r) = None \<and> avg_rain_inches (enrichRow index r) = None)
   \<and> (\<forall>r\<in>set (Map_values best). enrichRow index r \<in> set (Array_sort compareFn (enriched index best)))
   \<and> length (Array_sort compareFn (enriched index best)) = length (Map_values best)"
proof (intro conjI ballI impI)
  show "length (enriched index best) = length (Map_values best)"
    and "map apn (enriched index best) = map r_apn (Map_values best)"
    by (simp_all add: enriched_def)
  show "length (Array_sort compareFn (enriched index best)) = length (Map_values best)"
    by (simp add: length_Array_sort enriched_def)
next
  fix r :: Row assume "r \<in> set (Map_values best)"
  then show "enrichRow index r \<in> set (Array_sort compareFn (enriched index best))"
    by (simp add: set_Array_sort enriched_def)
next
  fix r :: Row assume "Map_get index (r_napn r) = None"
  then show "flood_zone (enrichRow index r) = None" and "avg_rain_inches (enrichRow index r) = None"
    by (simp_all add: enrichRow_climate)
qed

text \<open>
  The two parcels that are left of the four sample candidates, joined to an index that
  knows only the first one: two rows come out, the second with both attributes null.
\<close>

theorem left_join_keeps_every_candidate_witness:
  "Map_get (climateIndex [sample_climate ''1234567890'' ''AE'' ''52.1''])
       (r_napn (cleanRow (sample_listing ''55-66-777888'' ''800000'' ''2200'' ''Pending''))) = None
   \<and> cleanRow (sample_listing ''55-66-777888'' ''800000'' ''2200'' ''Pending'')
       \<in> set (Map_values (bestByApn dedup_example))
   \<and> flood_zone (enrichRow (climateIndex [sample_climate ''1234567890'' ''AE'' ''52.1''])
        (cleanRow (sample_listing ''55-66-777888'' ''800000'' ''2200'' ''Pending''))) = None
   \<and> avg_rain_inches (enrichRow (climateIndex [sample_climate ''1234567890'' ''AE'' ''52.1''])
        (cleanRow (sample_listing ''55-66-777888'' ''800000'' ''2200'' ''Pending''))) = None
   \<and> enrichRow (climateIndex [sample_climate ''1234567890'' ''AE'' ''52.1''])
        (cleanRow (sample_listing ''55-66-777888'' ''800000'' ''2200'' ''Pending''))
       \<in> set (Array_sort compareFn
            (enriched (climateIndex [sample_climate ''1234567890'' ''AE'' ''52.1'']) (bestByApn dedup_example)))
   \<and> length (Array_sort compareFn
        (enriched (climateIndex [sample_climate ''1234567890'' ''AE'' ''52.1'']) (bestByApn dedup_example))) = 2"
proof -
  note ev = dedup_example_values
  have none: "Map_get (climateIndex [sample_climate ''1234567890'' ''AE'' ''52.1''])
       (r_napn (cleanRow (sample_listing ''55-66-777888'' ''800000'' ''2200'' ''Pending''))) = None"
    by (simp only: climateIndex_evals) (simp add: Map_get_def cleanRow_def sample_listing_def normalizeApn_evals)
  have mem: "cleanRow (sample_listing ''55-66-777888'' ''800000'' ''2200'' ''Pending'')
       \<in> set (Map_values (bestByApn dedup_example))"
    by (simp only: ev) simp
  have len: "length (Map_values (bestByApn dedup_example)) = 2"
    by (simp only: ev) simp
  from left_join_keeps_every_candidate
    [of "climateIndex [sample_climate ''1234567890'' ''AE'' ''52.1'']" "bestByApn dedup_example"]
    none mem len
  show ?thesis by auto
qed

subsection \<open>C7: the output is sorted by price, stably\<close>

text \<open>
  Claim C7. When all rows pass the schemas, the result of the run is the enriched array
  sorted: the prices of the output are non-decreasing, and for every price the rows of
  that price stand in the output in the order in which the enrichment produced them.
\<close>

theorem output_sorted_by_price_stable:
  assumes "map_parse ListingSchema_parse listingsData = Inr listingRows"
    and "map_parse ClimateSchema_parse climateData = Inr climateRows"
  shows "enrichParsed listingsData climateData
           = Inr (Array_sort compareFn (enrichedRows listingRows climateRows))
     \<and> sorted_wrt (\<lambda>a b. js_le (price a) (price b))
           (Array_sort compareFn (enrichedRows listingRows climateRows))
     \<and> (\<forall>p. filter (\<lambda>e. price e = p) (Array_sort compareFn (enrichedRows listingRows climateRows))
             = filter (\<lambda>e. price e = p) (enrichedRows listingRows climateRows))"
proof -
  have dp: "\<forall>e\<in>set (enrichedRows listingRows climateRows). double_price e"
    using enrichedRows_double_price [OF assms(1)] by blast
  from enrichParsed_Inr [OF assms] Array_sort_sorted [OF dp] Array_sort_stable [OF dp]
  show ?thesis by blast
qed

text \<open>
  Three listings of three parcels, at 450000, 440000 and 450000: the output holds the
  second one first, then the first and the third in their order.
\<close>

theorem output_sorted_by_price_stable_witness:
  "map_parse ListingSchema_parse
       [demo_listing, demo_listing(''apn'' \<mapsto> ''55-66-777888'', ''price'' \<mapsto> ''440000''),
        demo_listing(''apn'' \<mapsto> ''22-33-444555'')]
     = Inr [sample_listing ''12-34-567890'' ''450000'' ''1600'' ''for_sale'',
            sample_listing ''55-66-777888'' ''440000'' ''1600'' ''for_sale'',
            sample_listing ''22-33-444555'' ''450000'' ''1600'' ''for_sale'']
   \<and> map_parse ClimateSchema_parse [demo_climate] = Inr [sample_climate ''1234567890'' ''AE'' ''52.1'']
   \<and> map apn (Array_sort compareFn (enrichedRows
         [sample_listing ''12-34-567890'' ''450000'' ''1600'' ''for_sale'',
          sample_listing ''55-66-777888'' ''440000'' ''1600'' ''for_sale'',
          sample_listing ''22-33-444555'' ''450000'' ''1600'' ''for_sale'']
         [sample_climate ''1234567890'' ''AE'' ''52.1'']))
       = [''55-66-777888'', ''12-34-567890'', ''22-33-444555'']
   \<and> sorted_wrt (\<lambda>a b. js_le (price a) (price b)) (Array_sort compareFn (enrichedRows
         [sample_listing ''12-34-567890'' ''450000'' ''1600'' ''for_sale'',
          sample_listing ''55-66-777888'' ''440000'' ''1600'' ''for_sale'',
          sample_listing ''22-33-444555'' ''450000'' ''1600'' ''for_sale'']
         [sample_climate ''1234567890'' ''AE'' ''52.1'']))"
proof -
  have a: "map_parse ListingSchema_parse
       [demo_listing, demo_listing(''apn'' \<mapsto> ''55-66-777888'', ''price'' \<mapsto> ''440000''),
        demo_listing(''apn'' \<mapsto> ''22-33-444555'')]
     = Inr [sample_listing ''12-34-567890'' ''450000'' ''1600'' ''for_sale'',
            sample_listing ''55-66-777888'' ''440000'' ''1600'' ''for_sale'',
            sample_listing ''22-33-444555'' ''450000'' ''1600'' ''for_sale'']"
    by (simp add: ListingSchema_parse_def demo_listing_def sample_listing_def)
  have b: "map_parse ClimateSchema_parse [demo_climate] = Inr [sample_climate ''1234567890'' ''AE'' ''52.1'']"
    by (simp add: parse_demo_climate0)
  have c: "map apn (Array_sort compareFn (enrichedRows
         [sample_listing ''12-34-567890'' ''450000'' ''1600'' ''for_sale'',
          sample_listing ''55-66-777888'' ''440000'' ''1600'' ''for_sale'',
          sample_listing ''22-33-444555'' ''450000'' ''1600'' ''for_sale'']
         [sample_climate ''1234567890'' ''AE'' ''52.1'']))
       = [''55-66-777888'', ''12-34-567890'', ''22-33-444555'']"
    by (simp add: enrichedRows_def enriched_def bestByApn_def Map_get_def Map_set_def Map_values_def
        sample_listing_def num_evals normalizeApn_def isDigit_def toLowerCase_evals allowedStatuses_def
        Array_sort_def compareFn_def cleanRow_def round_double_eval)
  from output_sorted_by_price_stable [OF a b] a b c show ?thesis by blast
qed

subsection \<open>C8: the climate index keeps the last row of a key\<close>

text \<open>
  Claim C8. The climate index has no entry for the empty key, so rows whose normalized
  identifier is empty are discarded; and a key that is not empty is mapped to the
  attributes of the last climate row, in input order, whose normalized identifier is that
  key (to nothing when there is no such row).
\<close>

theorem climateIndex_last_wins:
  "Map_get (climateIndex cs) [] = None
   \<and> (k \<noteq> [] \<longrightarrow> Map_get (climateIndex cs) k =
        (if \<exists>c\<in>set cs. normalizeApn (c_apn c) = k
         then Some (climateEntry (last (filter (\<lambda>c. normalizeApn (c_apn c) = k) cs)))
         else None))"
proof -
  let ?f = "\<lambda>k. filter (\<lambda>c. normalizeApn (c_apn c) = k) cs"
  have get: "Map_get (climateIndex cs) k =
     (case rev (?f k) of [] \<Rightarrow> None | c # _ \<Rightarrow> if k = [] then None else Some (climateEntry c))" for k
    unfolding climateIndex_def climateIndex_loop_get by (simp add: Map_get_def split: list.splits)
  have "Map_get (climateIndex cs) [] = None"
    by (simp add: get split: list.splits)
  moreover have "Map_get (climateIndex cs) k =
        (if \<exists>c\<in>set cs. normalizeApn (c_apn c) = k
         then Some (climateEntry (last (?f k))) else None)" if "k \<noteq> []"
  proof (cases "?f k" rule: rev_cases)
    case Nil
    then have "\<not> (\<exists>c\<in>set cs. normalizeApn (c_apn c) = k)" by (simp add: filter_empty_conv)
    with Nil show ?thesis by (simp add: get)
  next
    case (snoc ys y)
    then have "y \<in> set (?f k)" by simp
    then have "\<exists>c\<in>set cs. normalizeApn (c_apn c) = k" by auto
    with snoc that show ?thesis by (simp add: get)
  qed
  ultimately show ?thesis by blast
qed

text \<open>
  Two rows for the parcel \<open>1234567890\<close>, written with and without dashes, and a row
  without digits in its identifier: the second row is the one in the index.
\<close>

theorem climateIndex_last_wins_witness:
  "''1234567890'' \<noteq> []
   \<and> Map_get (climateIndex [sample_climate ''1234567890'' ''AE'' ''52.1'',
                             sample_climate ''12-34-567890'' ''X'' ''2'',
                             sample_climate ''n/a'' ''VE'' ''3'']) ''1234567890''
       = Some \<lparr> e_flood_zone = Some ''X'', e_avg_rain_inches = Some (Fin 2) \<rparr>
   \<and> Map_get (climateIndex [sample_climate ''1234567890'' ''AE'' ''52.1'',
                             sample_climate ''12-34-567890'' ''X'' ''2'',
                             sample_climate ''n/a'' ''VE'' ''3'']) [] = None"
proof -
  have "(\<exists>c\<in>set [sample_climate ''1234567890'' ''AE'' ''52.1'',
                   sample_climate ''12-34-567890'' ''X'' ''2'',
                   sample_climate ''n/a'' ''VE'' ''3'']. normalizeApn (c_apn c) = ''1234567890'')"
    by (simp add: sample_climate_def normalizeApn_evals)
  moreover have "climateEntry (last (filter (\<lambda>c. normalizeApn (c_apn c) = ''1234567890'')
        [sample_climate ''1234567890'' ''AE'' ''52.1'',
         sample_climate ''12-34-567890'' ''X'' ''2'',
         sample_climate ''n/a'' ''VE'' ''3'']))
      = \<lparr> e_flood_zone = Some ''X'', e_avg_rain_inches = Some (Fin 2) \<rparr>"
    by (simp add: sample_climate_def normalizeApn_evals climateEntry_def num_evals)
  ultimately show ?thesis
    using climateIndex_last_wins [of "[sample_climate ''1234567890'' ''AE'' ''52.1'',
         sample_climate ''12-34-567890'' ''X'' ''2'',
         sample_climate ''n/a'' ''VE'' ''3'']" "''1234567890''"]
    by simp
qed

subsection \<open>C9: a row that fails its schema is fatal\<close>

text \<open>
  Claim C9. The run on the parsed rows ends in an error exactly when some listing row
  lacks one of the required keys \<open>apn\<close>, \<open>address\<close>, \<open>zip\<close>, \<open>price\<close>, \<open>sqft\<close>, \<open>status\<close> or
  some climate row lacks \<open>apn\<close>; otherwise it returns rows. An error is all the run
  returns (there are no rows next to it): \<^verbatim>\<open>process\<close> then reports exactly that one error
  and stores no rows, leaving \<^verbatim>\<open>results\<close> as it was; after a run without error it stores
  the rows and no error.
\<close>

theorem structural_validation_is_fatal:
  "(isl (enrichParsed listingsData climateData) \<longleftrightarrow>
      (\<exists>r\<in>set listingsData. \<exists>k\<in>set [''apn'', ''address'', ''zip'', ''price'', ''sqft'', ''status'']. r k = None)
      \<or> (\<exists>c\<in>set climateData. c ''apn'' = None))
   \<and> (\<forall>err. enrichListings parseCSV (listingsRaw st) (climateRaw st) = Inl err \<longrightarrow>
         errors (process parseCSV st) = [err] \<and> results (process parseCSV st) = results st)
   \<and> (\<forall>rows. enrichListings parseCSV (listingsRaw st) (climateRaw st) = Inr rows \<longrightarrow>
         errors (process parseCSV st) = [] \<and> results (process parseCSV st) = rows)"
proof -
  have "isl (enrichParsed listingsData climateData) \<longleftrightarrow>
      isl (map_parse ListingSchema_parse listingsData) \<or> isl (map_parse ClimateSchema_parse climateData)"
    by (simp add: enrichParsed_def split: sum.splits)
  then have "isl (enrichParsed listingsData climateData) \<longleftrightarrow>
      (\<exists>r\<in>set listingsData. \<exists>k\<in>set [''apn'', ''address'', ''zip'', ''price'', ''sqft'', ''status'']. r k = None)
      \<or> (\<exists>c\<in>set climateData. c ''apn'' = None)"
    by (simp only: map_parse_isl ListingSchema_parse_isl ClimateSchema_parse_isl)
  then show ?thesis by (simp add: process_def)
qed

text \<open>
  The demo listings end with a row of nine fields, which has no \<open>status\<close>: the run on
  them is one error, and \<^verbatim>\<open>process\<close> reports it and leaves the earlier rows alone.
\<close>

theorem structural_validation_is_fatal_witness:
  "demo_short_row ''status'' = None
   \<and> enrichListings sample_parseCSV (listingsRaw sample_state) (climateRaw sample_state)
       = Inl (ZodError [''status''])
   \<and> isl (enrichParsed [demo_listing, demo_short_row] [demo_climate])
   \<and> errors (process sample_parseCSV sample_state) = [ZodError [''status'']]
   \<and> results (process sample_parseCSV sample_state) = results sample_state"
proof -
  have a: "demo_short_row ''status'' = None" by (simp add: demo_short_row_def)
  have b: "enrichListings sample_parseCSV (listingsRaw sample_state) (climateRaw sample_state)
       = Inl (ZodError [''status''])"
    by (simp add: enrichListings_def enrichParsed_def sample_parseCSV_def sample_state_def
        parse_demo_listing0 parse_demo_short_row)
  from structural_validation_is_fatal
    [of "[demo_listing, demo_short_row]" "[demo_climate]" sample_parseCSV sample_state] a b
  show ?thesis by simp
qed

subsection \<open>C10: the status is lower-cased, not trimmed\<close>

text \<open>
  Claim C10. There is a validated listing whose status differs from an allowed one only
  by a trailing blank, \<open>pending \<close>, and which the filter drops, while the same listing with
  status \<open>pending\<close> is kept: the status is compared after \<^verbatim>\<open>toLowerCase\<close> alone.
\<close>

theorem status_is_not_trimmed:
  "cleaned [sample_listing ''12-34-567890'' ''450000'' ''1600'' ''pending ''] = []
   \<and> toLowerCase ''pending '' = ''pending ''
   \<and> cleaned [sample_listing ''12-34-567890'' ''450000'' ''1600'' ''pending'']
       = [cleanRow (sample_listing ''12-34-567890'' ''450000'' ''1600'' ''pending'')]"
  by (simp add: sample_listing_def num_evals normalizeApn_evals toLowerCase_evals allowedStatuses_def)

theorem status_is_not_trimmed_witness:
  "enrichedRows [sample_listing ''12-34-567890'' ''450000'' ''1600'' ''pending ''] [] = []"
  using status_is_not_trimmed by (simp add: enrichedRows_def enriched_def bestByApn_def Map_values_def)

end
